theory Spec2Isabelle
  imports Main "HOL-Library.Word" "HOL-Library.AList"
begin

unbundle bit_operations_syntax

section \<open>Data model\<close>

text \<open>
  The header makes \<open>digit_tt\<close> a \<open>uint8_t\<close> unless \<open>DIGIT_WIDTH\<close> is set to 16, 32 or
  64. The structure, the store and the functions that \<open>magnitude_sum\<close> runs are modelled
  for a digit type of any width, \<open>'w word\<close>; the rest of the library is modelled at the
  default width, where \<open>digit_tt\<close> is \<open>8 word\<close>.

  Arithmetic on digits follows C, with \<open>int\<close> of 32 bits: operands narrower than \<open>int\<close>
  are promoted to \<open>int\<close> (\<open>uint\<close>) and the operation is exact; \<open>uint32_t\<close> and
  \<open>uint64_t\<close> operands are not promoted and the operation wraps at their width; the
  result wraps when it is stored back into a digit (\<open>word_of_int\<close>). Values of type
  \<open>size_t\<close> are natural numbers; the places where the source tests them against
  \<open>SIZE_MAX\<close> keep their test (at the default width \<open>sizeof(digit_tt)\<close> is 1, so
  \<open>SIZE_MAX / size\<close> is \<open>SIZE_MAX\<close>).
\<close>

type_synonym digit_tt = "8 word"

type_synonym ptr = nat

text \<open>\<open>DIGIT_BITS\<close> and \<open>DIGIT_MAX\<close> at the default width.\<close>

definition DIGIT_BITS :: nat where
  "DIGIT_BITS = 8"

definition DIGIT_MAX :: digit_tt where
  "DIGIT_MAX = 255"

definition SIZE_MAX :: int where
  "SIZE_MAX = 18446744073709551615"

definition DIGITS_FOR_INTMAX :: nat where
  "DIGITS_FOR_INTMAX = 8 div 1 + (if 8 mod 1 \<noteq> (0::nat) then 1 else 0)"

definition SMALL_NUMBER_CACHE_MAX :: nat where
  "SMALL_NUMBER_CACHE_MAX = 16"

definition NULL :: ptr where
  "NULL = 0"

text \<open>
  \<open>struct bigint_st\<close>. The C field \<open>digits\<close> is a pointer into a heap array: the
  record holds the array it points into (\<open>digits\<close>, whose list length is the true size of
  the allocation) and how far the pointer has been advanced from the start of that array
  (\<open>digits_off\<close>; only \<open>bigint_div\<close> moves it). \<open>length_st\<close> is the field \<open>length\<close>.
\<close>

record 'd bigint_struct =
  digits :: "'d list"
  digits_off :: nat
  allocated :: nat
  length_st :: nat
  negative :: bool

type_synonym bigint_st = "digit_tt bigint_struct"

text \<open>
  The values of \<open>errno\<close> the library sets, and \<open>Fault\<close> for what C leaves undefined:
  a read or write outside an allocation, a dereferenced \<open>NULL\<close> or freed pointer, a
  \<open>realloc\<close> or \<open>free\<close> of a pointer that is not the start of an allocation.
  \<open>OutOfFuel\<close> is not an outcome of the program: three loops of the source
  (\<open>bigint_div\<close>, \<open>bigint_pow\<close>, \<open>bigint_snbprint\<close>) end only because a big integer
  gets smaller, so their models take a bound on the number of rounds and stop with
  \<open>OutOfFuel\<close> when it is used up.
\<close>

datatype error = EOVERFLOW | EDOM | ERANGE | EINVAL | Fault | OutOfFuel

text \<open>
  The store: the live \<open>bigint_st\<close> objects by address, the next fresh address, the
  bytes a fresh \<open>malloc\<close> block happens to hold, and the two globals of the library.
\<close>

record 'd memory =
  objs :: "(ptr \<times> 'd bigint_struct) list"
  brk :: ptr
  garbage :: "nat \<Rightarrow> 'd"
  small_number_cache :: "ptr list"
  init_done :: bool

type_synonym heap = "digit_tt memory"

text \<open>
  A computation on the store, ending in an error or in a result and the new store; \<open>prog\<close>
  is the case of the default width.
\<close>

type_synonym ('d, 'a) run = "'d memory \<Rightarrow> error + ('a \<times> 'd memory)"

type_synonym 'a prog = "(digit_tt, 'a) run"

definition ret :: "'a \<Rightarrow> ('d, 'a) run" where
  "ret v h = Inr (v, h)"

definition raise :: "error \<Rightarrow> ('d, 'a) run" where
  "raise e h = Inl e"

definition bnd :: "('d, 'a) run \<Rightarrow> ('a \<Rightarrow> ('d, 'b) run) \<Rightarrow> ('d, 'b) run" where
  "bnd m f h = (case m h of Inl e \<Rightarrow> Inl e | Inr (v, h') \<Rightarrow> f v h')"

definition deref :: "ptr \<Rightarrow> ('d, 'd bigint_struct) run" where
  "deref p h = (case map_of (objs h) p of None \<Rightarrow> Inl Fault | Some x \<Rightarrow> Inr (x, h))"

definition assign :: "ptr \<Rightarrow> 'd bigint_struct \<Rightarrow> ('d, unit) run" where
  "assign p x h =
     (case map_of (objs h) p of
        None \<Rightarrow> Inl Fault
      | Some _ \<Rightarrow> Inr ((), h\<lparr>objs := AList.update p x (objs h)\<rparr>))"

text \<open>
  \<open>x.digits[i]\<close> as an rvalue and as an lvalue, on a structure held in a local
  variable, and \<open>p->digits[i]\<close> through a pointer.
\<close>

definition get_digit :: "'d bigint_struct \<Rightarrow> nat \<Rightarrow> error + 'd" where
  "get_digit x i =
     (if digits_off x + i < length (digits x) then Inr (digits x ! (digits_off x + i))
      else Inl Fault)"

definition set_digit :: "'d bigint_struct \<Rightarrow> nat \<Rightarrow> 'd \<Rightarrow> error + 'd bigint_struct" where
  "set_digit x i v =
     (if digits_off x + i < length (digits x)
      then Inr (x\<lparr>digits := (digits x)[digits_off x + i := v]\<rparr>)
      else Inl Fault)"

definition lift :: "error + 'a \<Rightarrow> ('d, 'a) run" where
  "lift r h = (case r of Inl e \<Rightarrow> Inl e | Inr v \<Rightarrow> Inr (v, h))"

definition rd :: "ptr \<Rightarrow> nat \<Rightarrow> ('d, 'd) run" where
  "rd p i h =
     (bnd (deref p) (\<lambda>x. lift (get_digit x i))) h"

definition wr :: "ptr \<Rightarrow> nat \<Rightarrow> 'd \<Rightarrow> ('d, unit) run" where
  "wr p i v h =
     (bnd (deref p) (\<lambda>x. bnd (lift (set_digit x i v)) (assign p))) h"

definition set_length :: "ptr \<Rightarrow> nat \<Rightarrow> ('d, unit) run" where
  "set_length p n h =
     (bnd (deref p) (\<lambda>x. assign p (x\<lparr>length_st := n\<rparr>))) h"

definition set_negative :: "ptr \<Rightarrow> bool \<Rightarrow> ('d, unit) run" where
  "set_negative p b h =
     (bnd (deref p) (\<lambda>x. assign p (x\<lparr>negative := b\<rparr>))) h"

definition malloc_st :: "'d bigint_struct \<Rightarrow> ('d, ptr) run" where
  "malloc_st x h = Inr (brk h, h\<lparr>objs := (brk h, x) # objs h, brk := Suc (brk h)\<rparr>)"

text \<open>\<open>memset(p->digits + start, 0, count)\<close>\<close>

definition memset0 :: "ptr \<Rightarrow> nat \<Rightarrow> nat \<Rightarrow> ('d::zero, unit) run" where
  "memset0 p start count h =
     (bnd (deref p) (\<lambda>x.
       if digits_off x + start + count \<le> length (digits x)
       then assign p (x\<lparr>digits :=
              take (digits_off x + start) (digits x) @ replicate count 0 @
              drop (digits_off x + start + count) (digits x)\<rparr>)
       else raise Fault)) h"

text \<open>\<open>memcpy(dest->digits, src->digits, count)\<close>\<close>

definition memcpy_digits :: "ptr \<Rightarrow> ptr \<Rightarrow> nat \<Rightarrow> unit prog" where
  "memcpy_digits dest src count h =
     (bnd (deref src) (\<lambda>s.
     bnd (deref dest) (\<lambda>d.
       if digits_off s + count \<le> length (digits s) \<and> digits_off d + count \<le> length (digits d)
       then assign dest (d\<lparr>digits :=
              take (digits_off d) (digits d) @ take count (drop (digits_off s) (digits s)) @
              drop (digits_off d + count) (digits d)\<rparr>)
       else raise Fault))) h"

section \<open>Allocation helpers\<close>

text \<open>
  \<open>safe_calloc(nmemb, sizeof(digit_tt))\<close>: despite its name it calls \<open>malloc\<close>, so the
  block is not cleared. \<open>malloc\<close> and \<open>realloc\<close> themselves are taken to succeed. In
  \<open>safe_reallocarray(ptr, nmemb, sizeof(digit_tt))\<close> the size of a digit is its width in
  bytes.
\<close>

definition safe_calloc :: "nat \<Rightarrow> digit_tt list prog" where
  "safe_calloc nmemb h =
     (if int nmemb > SIZE_MAX then Inl EOVERFLOW
      else Inr (map (garbage h) [0..<nmemb], h))"

definition safe_reallocarray ::
  "'w::len word bigint_struct \<Rightarrow> nat \<Rightarrow> ('w word, 'w word list) run" where
  "safe_reallocarray x nmemb h =
     (if int nmemb > SIZE_MAX div (int LENGTH('w) div 8) then Inl EOVERFLOW
      else if digits_off x \<noteq> 0 then Inl Fault
      else Inr (take nmemb (digits x) @ map (garbage h) [length (digits x)..<nmemb], h))"

text \<open>
  The \<open>while\<close> loop of \<open>resize\<close> that doubles \<open>x->allocated\<close>. Sizes are natural
  numbers and the doubling is not reduced modulo \<open>SIZE_MAX + 1\<close>: the loop agrees with the
  code as long as twice the allocation fits \<open>size_t\<close>, which the results about \<open>resize\<close>
  assume; beyond that \<open>safe_reallocarray\<close> refuses the size.
\<close>

function resize_grow :: "nat \<Rightarrow> nat \<Rightarrow> nat \<Rightarrow> nat" where
  "resize_grow len original_allocated a =
     (if len \<ge> a then
        (if a * 2 \<le> original_allocated then len
         else resize_grow len original_allocated (a * 2))
      else a)"
  by pat_completeness auto
termination
  by (relation "measure (\<lambda>(len, orig, a). Suc len - a)") auto

definition resize :: "ptr \<Rightarrow> nat \<Rightarrow> ('w::len word, unit) run" where
  "resize p len h =
     (bnd (deref p) (\<lambda>x.
       let original_allocated = allocated x;
           a = resize_grow len original_allocated original_allocated
       in if a > original_allocated then
            bnd (safe_reallocarray x a) (\<lambda>new.
            bnd (assign p (x\<lparr>allocated := a, digits := new\<rparr>)) (\<lambda>_.
            bnd (memset0 p original_allocated (a - original_allocated)) (\<lambda>_.
            set_length p len)))
          else assign p (x\<lparr>allocated := a, length_st := len\<rparr>))) h"

definition resize_sum :: "ptr \<Rightarrow> nat \<Rightarrow> nat \<Rightarrow> ('w::len word, unit) run" where
  "resize_sum p a b h =
     ((if int (a + b) > SIZE_MAX then raise EOVERFLOW else resize p (a + b))) h"

definition bigint_free :: "ptr \<Rightarrow> unit prog" where
  "bigint_free p h =
     (case map_of (objs h) p of
        None \<Rightarrow> Inl Fault
      | Some x \<Rightarrow>
          if digits_off x \<noteq> 0 then Inl Fault
          else Inr ((), h\<lparr>objs := AList.delete p (objs h)\<rparr>))"


section \<open>Sequencing\<close>

definition ebind :: "error + 'a \<Rightarrow> ('a \<Rightarrow> error + 'b) \<Rightarrow> error + 'b" where
  "ebind r f = (case r of Inl e \<Rightarrow> Inl e | Inr v \<Rightarrow> f v)"

lemma ebind_cong [fundef_cong]:
  "r = r' \<Longrightarrow> (\<And>v. r' = Inr v \<Longrightarrow> f v = f' v) \<Longrightarrow> ebind r f = ebind r' f'"
  by (auto simp: ebind_def split: sum.splits)

lemma bnd_cong [fundef_cong]:
  "m h = m' h' \<Longrightarrow> (\<And>v k. m' h' = Inr (v, k) \<Longrightarrow> f v k = f' v k)
   \<Longrightarrow> bnd m f h = bnd m' f' h'"
  by (auto simp: bnd_def split: sum.splits)

section \<open>Predicates on a big integer\<close>

definition bigint_eqz :: "ptr \<Rightarrow> bool prog" where
  "bigint_eqz x h =
     (bnd (deref x) (\<lambda>xs. ret (length_st xs = 0))) h"

definition bigint_nez :: "ptr \<Rightarrow> bool prog" where
  "bigint_nez x h =
     (bnd (deref x) (\<lambda>xs. ret (length_st xs \<noteq> 0))) h"

definition bigint_ltz :: "ptr \<Rightarrow> bool prog" where
  "bigint_ltz x h =
     (bnd (deref x) (\<lambda>xs. ret (negative xs))) h"

text \<open>The macro \<open>POWER_OF_2(x)\<close>, on the promoted digit.\<close>

definition POWER_OF_2 :: "int \<Rightarrow> bool" where
  "POWER_OF_2 x = (((x - 1) AND x) = 0)"

function is_power_of_2_loop :: "bigint_st \<Rightarrow> nat \<Rightarrow> error + bool" where
  "is_power_of_2_loop x n =
     (if n < length_st x - 1 then
        ebind (get_digit x n) (\<lambda>d.
          if d \<noteq> 0 then Inr False else is_power_of_2_loop x (Suc n))
      else Inr True)"
  by pat_completeness auto
termination
  by (relation "measure (\<lambda>(x, n). length_st x - 1 - n)") auto

definition bigint_is_power_of_2 :: "ptr \<Rightarrow> bool prog" where
  "bigint_is_power_of_2 x h =
     (bnd (bigint_eqz x) (\<lambda>z.
       if z then ret False
       else bnd (deref x) (\<lambda>xs.
            bnd (lift (is_power_of_2_loop xs 0)) (\<lambda>low_zero.
              if \<not> low_zero then ret False
              else bnd (rd x (length_st xs - 1)) (\<lambda>d. ret (POWER_OF_2 (uint d))))))) h"

section \<open>Duplicate and assign\<close>

definition bigint_dup :: "ptr \<Rightarrow> ptr prog" where
  "bigint_dup x h =
     (bnd (deref x) (\<lambda>xs.
     bnd (safe_calloc (allocated xs)) (\<lambda>new_digits.
     bnd (malloc_st (xs\<lparr>digits := new_digits, digits_off := 0\<rparr>)) (\<lambda>new.
     bnd (memset0 new 0 (allocated xs)) (\<lambda>_.
     bnd (if length_st xs \<noteq> 0 then memcpy_digits new x (length_st xs) else ret ()) (\<lambda>_.
     ret new)))))) h"

definition bigint_mov :: "ptr \<Rightarrow> ptr \<Rightarrow> int prog" where
  "bigint_mov dest src h =
     ((if dest = src then ret 0
      else
        bnd (deref src) (\<lambda>s.
        bnd (deref dest) (\<lambda>d.
        bnd (if length_st s > allocated d then resize dest (length_st s) else ret ()) (\<lambda>_.
        bnd (memcpy_digits dest src (length_st s)) (\<lambda>_.
        bnd (set_length dest (length_st s)) (\<lambda>_.
        ret 0))))))) h"

section \<open>Construction from machine integers\<close>

text \<open>\<open>uintmax_t\<close> and \<open>intmax_t\<close> are 64 bits wide; \<open>intmax_t\<close> is read with \<open>sint\<close>.\<close>

text \<open>
  The loop \<open>while (src != 0)\<close> of \<open>bigint_movui\<close> and \<open>bigint_movi\<close> that stores the
  digits of a \<open>uintmax_t\<close>. It only masks and shifts right, so the value is held as an
  integer; it is unsigned, so \<open>!= 0\<close> is \<open>0 <\<close>.
  \<open>DIGIT_MAX\<close> is \<open>(digit_tt) -1\<close> and \<open>DIGIT_BITS\<close> is \<open>sizeof(digit_tt) * CHAR_BIT\<close>, the
  width of the digit type.
\<close>

lemma drop_bit_digit_less: "0 < (src :: int) \<Longrightarrow> drop_bit LENGTH('w::len) src < src"
proof -
  assume "0 < src"
  moreover have "(2 :: int) ^ 1 \<le> 2 ^ LENGTH('w)" by (intro power_increasing) (simp_all add: Suc_le_eq)
  then have "(1 :: int) < 2 ^ LENGTH('w)" by simp
  ultimately show ?thesis by (simp add: drop_bit_eq_div int_div_less_self)
qed

function movui_loop ::
  "'w::len word bigint_struct \<Rightarrow> nat \<Rightarrow> int \<Rightarrow> error + 'w word bigint_struct \<times> nat" where
  "movui_loop dest offset src =
     (if 0 < src then
        ebind (set_digit dest offset (word_of_int (src AND uint (- 1 :: 'w word)))) (\<lambda>dest'.
          movui_loop dest' (Suc offset) (drop_bit LENGTH('w) src))
      else Inr (dest, offset))"
  by pat_completeness auto
termination
  by (relation "measure (\<lambda>(dest, offset, src). nat src)")
     (auto simp: drop_bit_digit_less)

definition movui_st ::
  "'w::len word bigint_struct \<Rightarrow> 64 word \<Rightarrow> error + 'w word bigint_struct" where
  "movui_st dest src =
     (if src = 0 then Inr (dest\<lparr>length_st := 0\<rparr>)
      else if LENGTH('w) \<ge> 64 then
        ebind (set_digit (dest\<lparr>length_st := 1\<rparr>) 0 (ucast src)) Inr
      else
        ebind (movui_loop dest 0 (uint src))
          (\<lambda>(dest', offset). Inr (dest'\<lparr>length_st := offset\<rparr>)))"

definition bigint_movui :: "ptr \<Rightarrow> 64 word \<Rightarrow> ('w::len word, unit) run" where
  "bigint_movui dest src h =
     (bnd (set_negative dest False) (\<lambda>_.
     bnd (deref dest) (\<lambda>d.
     bnd (lift (movui_st d src)) (assign dest)))) h"

definition INTMAX_MIN :: "64 word" where
  "INTMAX_MIN = 2 ^ 63"

definition INTMAX_MAX :: "64 word" where
  "INTMAX_MAX = 2 ^ 63 - 1"

definition INTMAX_MIN_MAGNITUDE :: "64 word" where
  "INTMAX_MIN_MAGNITUDE = INTMAX_MAX + (- (INTMAX_MIN + INTMAX_MAX))"

definition bigint_movi :: "ptr \<Rightarrow> 64 word \<Rightarrow> unit prog" where
  "bigint_movi dest src h =
     (bnd (set_negative dest (src <s 0)) (\<lambda>_.
       if src = 0 then set_length dest 0
       else
         let magnitude =
               (if 0 <s src then src
                else if src = INTMAX_MIN then INTMAX_MIN_MAGNITUDE
                else - src)
         in bnd (deref dest) (\<lambda>d.
            bnd (lift (if DIGIT_BITS \<ge> 64
                       then set_digit (d\<lparr>length_st := 1\<rparr>) 0 (ucast magnitude)
                       else ebind (movui_loop d 0 (uint magnitude))
                              (\<lambda>(d', offset). Inr (d'\<lparr>length_st := offset\<rparr>))))
                (assign dest)))) h"

text \<open>
  A fresh structure: \<open>malloc\<close> leaves its \<open>length\<close> and \<open>negative\<close> unset, and
  \<open>bigint_movui\<close> and \<open>bigint_movi\<close> set both before anything reads them.
\<close>

definition bigint_from_uint :: "64 word \<Rightarrow> ptr prog" where
  "bigint_from_uint v h =
     (bnd (safe_calloc (2 * DIGITS_FOR_INTMAX)) (\<lambda>ds.
     bnd (malloc_st \<lparr>digits = ds, digits_off = 0, allocated = 2 * DIGITS_FOR_INTMAX,
                     length_st = 0, negative = False\<rparr>) (\<lambda>x.
     bnd (bigint_movui x v) (\<lambda>_. ret x)))) h"

definition bigint_from_int :: "64 word \<Rightarrow> ptr prog" where
  "bigint_from_int v h =
     (bnd (safe_calloc (2 * DIGITS_FOR_INTMAX)) (\<lambda>ds.
     bnd (malloc_st \<lparr>digits = ds, digits_off = 0, allocated = 2 * DIGITS_FOR_INTMAX,
                     length_st = 0, negative = False\<rparr>) (\<lambda>x.
     bnd (bigint_movi x v) (\<lambda>_. ret x)))) h"


section \<open>Magnitude core\<close>

text \<open>
  The inner loop of \<open>ctz\<close> shifts a non-zero digit right until its low bit is set. The
  source enters it only for a non-zero digit (on zero it would not end), which the guard
  \<open>digit \<noteq> 0\<close> records.
\<close>

function ctz_bits :: "nat \<Rightarrow> nat \<Rightarrow> nat" where
  "ctz_bits digit result =
     (if digit \<noteq> 0 \<and> digit AND 1 = 0 then ctz_bits (drop_bit 1 digit) (Suc result)
      else result)"
  by pat_completeness auto
termination
  by (relation "measure (\<lambda>(digit, result). digit)") (auto simp: drop_bit_eq_div)

function ctz_loop :: "bigint_st \<Rightarrow> nat \<Rightarrow> nat \<Rightarrow> error + nat" where
  "ctz_loop x n result =
     (if n < length_st x then
        ebind (get_digit x n) (\<lambda>digit.
          if digit = 0 then ctz_loop x (Suc n) (result + DIGIT_BITS)
          else Inr (ctz_bits (unat digit) result))
      else Inr result)"
  by pat_completeness auto
termination
  by (relation "measure (\<lambda>(x, n, result). length_st x - n)") auto

definition ctz :: "ptr \<Rightarrow> nat prog" where
  "ctz x h =
     (bnd (deref x) (\<lambda>xs. lift (ctz_loop xs 0 0))) h"

function normalize_loop :: "'d::zero bigint_struct \<Rightarrow> error + 'd bigint_struct" where
  "normalize_loop x =
     (if length_st x \<noteq> 0 then
        ebind (get_digit x (length_st x - 1)) (\<lambda>d.
          if d = 0 then normalize_loop (x\<lparr>length_st := length_st x - 1\<rparr>) else Inr x)
      else Inr x)"
  by pat_completeness auto
termination
  by (relation "measure length_st") auto

definition normalize_st :: "'d::zero bigint_struct \<Rightarrow> error + 'd bigint_struct" where
  "normalize_st x =
     ebind (normalize_loop x) (\<lambda>x'.
       Inr (if length_st x' = 0 then x'\<lparr>negative := False\<rparr> else x'))"

definition normalize :: "ptr \<Rightarrow> ('d::zero, unit) run" where
  "normalize x h =
     (bnd (deref x) (\<lambda>xs. bnd (lift (normalize_st xs)) (assign x))) h"

text \<open>
  The borrow loop \<open>for (j = start; j < bound; j++)\<close> of \<open>magnitude_dec\<close> and
  \<open>magnitude_delta\<close>: decrement the first non-zero digit and stop, setting the zero
  digits passed on the way to \<open>DIGIT_MAX\<close>.
\<close>

function borrow_loop :: "bigint_st \<Rightarrow> nat \<Rightarrow> nat \<Rightarrow> error + bigint_st" where
  "borrow_loop x j bound =
     (if j < bound then
        ebind (get_digit x j) (\<lambda>d.
          if d \<noteq> 0 then set_digit x j (word_of_int (uint d - 1))
          else ebind (set_digit x j DIGIT_MAX) (\<lambda>x'. borrow_loop x' (Suc j) bound))
      else Inr x)"
  by pat_completeness auto
termination
  by (relation "measure (\<lambda>(x, j, bound). bound - j)") auto

definition magnitude_dec_st :: "bigint_st \<Rightarrow> error + bigint_st" where
  "magnitude_dec_st x =
     ebind (get_digit x 0) (\<lambda>d0.
     ebind (set_digit x 0 (word_of_int (uint d0 - 1))) (\<lambda>x1.
     ebind (get_digit x1 0) (\<lambda>d.
       if d = DIGIT_MAX then borrow_loop x1 1 (length_st x1) else Inr x1)))"

definition magnitude_dec :: "ptr \<Rightarrow> int prog" where
  "magnitude_dec x h =
     (bnd (deref x) (\<lambda>xs.
     bnd (lift (magnitude_dec_st xs)) (\<lambda>xs'.
     bnd (assign x xs') (\<lambda>_.
     bnd (normalize x) (\<lambda>_.
     ret 0))))) h"

function inc_loop :: "bigint_st \<Rightarrow> nat \<Rightarrow> nat \<Rightarrow> digit_tt \<Rightarrow> error + bigint_st \<times> digit_tt" where
  "inc_loop x i bound carry =
     (if i < bound then
        ebind (get_digit x i) (\<lambda>d.
          let sum = (word_of_int (uint d + uint carry) :: digit_tt);
              carry' = (if uint sum < uint d then 1 else 0)
          in ebind (set_digit x i (word_of_int (uint sum AND uint DIGIT_MAX))) (\<lambda>x'.
               inc_loop x' (Suc i) bound carry'))
      else Inr (x, carry))"
  by pat_completeness auto
termination
  by (relation "measure (\<lambda>(x, i, bound, carry). bound - i)") auto

definition magnitude_inc :: "ptr \<Rightarrow> int prog" where
  "magnitude_inc x h =
     (bnd (deref x) (\<lambda>xs.
     bnd (lift (inc_loop xs 0 (length_st xs) 1)) (\<lambda>(xs', carry).
     bnd (assign x xs') (\<lambda>_.
     bnd (if carry \<noteq> 0 then
            bnd (resize_sum x (length_st xs') 1) (\<lambda>_.
            bnd (deref x) (\<lambda>xs''.
            wr x (length_st xs'' - 1) carry))
          else ret ()) (\<lambda>_.
     bnd (normalize x) (\<lambda>_.
     ret 0)))))) h"

text \<open>
  The \<open>while (1)\<close> loop of \<open>magnitude_cmp\<close>, from the most significant digit down: it
  leaves when \<open>cmp == 0\<close> or when \<open>index\<close> was 0.
\<close>

function cmp_loop :: "bigint_st \<Rightarrow> bigint_st \<Rightarrow> nat \<Rightarrow> error + int" where
  "cmp_loop a b index =
     ebind (get_digit a index) (\<lambda>a_digit.
     ebind (get_digit b index) (\<lambda>b_digit.
       let cmp = (of_bool (a_digit > b_digit) - of_bool (a_digit < b_digit) :: int)
       in if cmp = 0 \<or> index = 0 then Inr cmp else cmp_loop a b (index - 1)))"
  by pat_completeness auto
termination
  by (relation "measure (\<lambda>(a, b, index). index)") auto

definition magnitude_cmp_st :: "bigint_st \<Rightarrow> bigint_st \<Rightarrow> error + int" where
  "magnitude_cmp_st a b =
     (if length_st a \<noteq> 0 \<and> length_st a = length_st b then cmp_loop a b (length_st a - 1)
      else Inr (of_bool (length_st a > length_st b) - of_bool (length_st a < length_st b)))"

definition magnitude_cmp :: "ptr \<Rightarrow> ptr \<Rightarrow> int prog" where
  "magnitude_cmp a b h =
     (bnd (deref a) (\<lambda>as. bnd (deref b) (\<lambda>bs. lift (magnitude_cmp_st as bs)))) h"

text \<open>
  \<open>magnitude_delta\<close>. The loop carries the pointer \<open>m\<close>, which the source replaces by a
  duplicate the first time it has to borrow while \<open>m\<close> is not \<open>dest\<close>.
\<close>

definition delta_step ::
  "ptr \<Rightarrow> ptr \<Rightarrow> ptr \<Rightarrow> nat \<Rightarrow> nat \<Rightarrow> nat \<Rightarrow> bool \<Rightarrow> (ptr \<times> bool) prog" where
  "delta_step dest m s m_length s_length i copied_minuend h =
     ((if i < s_length then
        bnd (rd m i) (\<lambda>md.
        bnd (rd s i) (\<lambda>sd.
        bnd (if md < sd then
               bnd (if m \<noteq> dest \<and> \<not> copied_minuend
                    then bnd (bigint_dup m) (\<lambda>m'. ret (m', True))
                    else ret (m, copied_minuend)) (\<lambda>(m', copied').
               bnd (deref m') (\<lambda>ms.
               bnd (lift (borrow_loop ms (i + 1) m_length)) (\<lambda>ms'.
               bnd (assign m' ms') (\<lambda>_.
               ret (m', copied')))))
             else ret (m, copied_minuend)) (\<lambda>(m', copied').
        bnd (rd m' i) (\<lambda>md'.
        bnd (rd s i) (\<lambda>sd'.
        bnd (wr dest i (word_of_int (uint md' - uint sd'))) (\<lambda>_.
        ret (m', copied')))))))
      else
        bnd (rd m i) (\<lambda>md.
        bnd (wr dest i md) (\<lambda>_.
        ret (m, copied_minuend))))) h"

function delta_loop ::
  "ptr \<Rightarrow> ptr \<Rightarrow> ptr \<Rightarrow> nat \<Rightarrow> nat \<Rightarrow> nat \<Rightarrow> bool \<Rightarrow> (ptr \<times> bool) prog" where
  "delta_loop dest m s m_length s_length i copied_minuend h =
     (if i < m_length then
        bnd (delta_step dest m s m_length s_length i copied_minuend) (\<lambda>(m', copied').
          delta_loop dest m' s m_length s_length (Suc i) copied') h
      else ret (m, copied_minuend) h)"
  by pat_completeness auto
termination
  by (relation "measure (\<lambda>(dest, m, s, m_length, s_length, i, c, h). m_length - i)") auto

definition magnitude_delta :: "ptr \<Rightarrow> ptr \<Rightarrow> ptr \<Rightarrow> ptr prog" where
  "magnitude_delta dest m s h =
     (bnd (deref m) (\<lambda>ms.
     bnd (deref s) (\<lambda>ss.
     bnd (resize dest (length_st ms)) (\<lambda>_.
     bnd (delta_loop dest m s (length_st ms) (length_st ss) 0 False) (\<lambda>(m', copied_minuend).
     bnd (if copied_minuend then bigint_free m' else ret ()) (\<lambda>_.
     bnd (normalize dest) (\<lambda>_.
     ret dest))))))) h"

text \<open>
  \<open>magnitude_sum\<close>. \<open>sum\<close> is a digit, so each assignment to it wraps at the width of a
  digit, whatever type the right-hand side was computed in. \<open>sum - carry\<close> is computed
  after the usual arithmetic conversions: with digits narrower than \<open>int\<close> both operands
  are \<open>int\<close> and the difference can be \<open>-1\<close>; with \<open>uint32_t\<close> or \<open>uint64_t\<close> digits
  \<open>carry\<close> is converted to the digit type and the difference wraps to \<open>DIGIT_MAX\<close>.
\<close>

definition sum_minus_carry :: "'w::len word \<Rightarrow> bool \<Rightarrow> int" where
  "sum_minus_carry s carry =
     (if LENGTH('w) < 32 then uint s - of_bool carry
      else uint (s - of_bool carry))"

text \<open>One round of the \<open>for\<close> loop; it returns the new \<open>carry\<close>.\<close>

definition sum_step ::
  "ptr \<Rightarrow> ptr \<Rightarrow> ptr \<Rightarrow> nat \<Rightarrow> nat \<Rightarrow> nat \<Rightarrow> bool \<Rightarrow> ('w::len word, bool) run" where
  "sum_step dest a b a_length b_length offset carry h =
     (bnd (if offset \<ge> a_length then
            bnd (rd b offset) (\<lambda>bd.
              let sum = (word_of_int (uint bd + of_bool carry) :: 'w word)
              in ret (sum, uint sum < uint bd))
          else if offset \<ge> b_length then
            bnd (rd a offset) (\<lambda>ad.
              let sum = (word_of_int (uint ad + of_bool carry) :: 'w word)
              in ret (sum, uint sum < uint ad))
          else
            bnd (rd a offset) (\<lambda>ad.
            bnd (rd b offset) (\<lambda>bd.
              let sum = (word_of_int (uint ad + uint bd + of_bool carry) :: 'w word)
              in ret (sum, sum_minus_carry sum carry < uint ad))))
       (\<lambda>(sum, carry'). bnd (wr dest offset sum) (\<lambda>_. ret carry'))) h"

function sum_loop ::
  "ptr \<Rightarrow> ptr \<Rightarrow> ptr \<Rightarrow> nat \<Rightarrow> nat \<Rightarrow> nat \<Rightarrow> nat \<Rightarrow> bool \<Rightarrow> ('w::len word, bool) run" where
  "sum_loop dest a b a_length b_length max_length offset carry h =
     (if offset < max_length then
        bnd (sum_step dest a b a_length b_length offset carry) (\<lambda>carry'.
          sum_loop dest a b a_length b_length max_length (Suc offset) carry') h
      else ret carry h)"
  by pat_completeness auto
termination
  by (relation "measure (\<lambda>(dest, a, b, al, bl, max_length, offset, c, h). max_length - offset)")
     auto

definition magnitude_sum :: "ptr \<Rightarrow> ptr \<Rightarrow> ptr \<Rightarrow> ('w::len word, ptr) run" where
  "magnitude_sum dest a b h =
     (bnd (deref a) (\<lambda>as.
     bnd (deref b) (\<lambda>bs.
       let a_length = length_st as;
           b_length = length_st bs;
           max_length = (if a_length > b_length then a_length else b_length)
       in
       bnd (if a_length = 0 \<and> b_length = 0 then bigint_movui dest 0
            else
              bnd (resize dest max_length) (\<lambda>_.
              bnd (sum_loop dest a b a_length b_length max_length 0 False) (\<lambda>carry.
                if carry then
                  bnd (deref dest) (\<lambda>ds.
                  bnd (resize_sum dest (length_st ds) 1) (\<lambda>_.
                  wr dest max_length 1))
                else ret ()))) (\<lambda>_.
       bnd (normalize dest) (\<lambda>_.
       ret dest))))) h"

section \<open>Increment and decrement\<close>

definition bigint_inc :: "ptr \<Rightarrow> int prog" where
  "bigint_inc x h =
     (bnd (bigint_ltz x) (\<lambda>neg. if neg then magnitude_dec x else magnitude_inc x)) h"

definition bigint_dec :: "ptr \<Rightarrow> int prog" where
  "bigint_dec x h =
     (bnd (bigint_eqz x) (\<lambda>z.
       if z then
         bnd (set_length x 1) (\<lambda>_.
         bnd (wr x 0 1) (\<lambda>_.
         bnd (set_negative x True) (\<lambda>_.
         ret 0)))
       else
         bnd (bigint_ltz x) (\<lambda>neg. if neg then magnitude_inc x else magnitude_dec x))) h"

section \<open>Shifts\<close>

text \<open>
  A \<open>NULL\<close> destination makes the operation allocate its result. The loops go through
  the store because \<open>dest\<close> may be \<open>x\<close> itself.
\<close>

function shli_aligned_loop :: "ptr \<Rightarrow> ptr \<Rightarrow> nat \<Rightarrow> nat \<Rightarrow> nat \<Rightarrow> unit prog" where
  "shli_aligned_loop dest x original_length new_digits i h =
     (if i < original_length then
        bnd (rd x (original_length - 1 - i)) (\<lambda>v.
        bnd (wr dest (original_length - 1 - i + new_digits) v) (\<lambda>_.
          shli_aligned_loop dest x original_length new_digits (Suc i))) h
      else ret () h)"
  by pat_completeness auto
termination
  by (relation "measure (\<lambda>(dest, x, original_length, new_digits, i, h). original_length - i)")
     auto

function shli_loop :: "ptr \<Rightarrow> ptr \<Rightarrow> nat \<Rightarrow> nat \<Rightarrow> nat \<Rightarrow> nat \<Rightarrow> unit prog" where
  "shli_loop dest x original_length new_digits offset i h =
     (if i \<le> original_length then
        (let from = original_length - i in
         bnd (if from < 1 then ret 0 else rd x (from - 1)) (\<lambda>msb.
         bnd (if from \<ge> original_length then ret 0 else rd x from) (\<lambda>lsb.
         bnd (wr dest (from + new_digits - 1)
                (word_of_int
                  ((push_bit offset (uint lsb) OR drop_bit (DIGIT_BITS - offset) (uint msb))
                   AND uint DIGIT_MAX))) (\<lambda>_.
           shli_loop dest x original_length new_digits offset (Suc i))))) h
      else ret () h)"
  by pat_completeness auto
termination
  by (relation
       "measure (\<lambda>(dest, x, original_length, new_digits, offset, i, h). Suc original_length - i)")
     auto

definition bigint_shli :: "ptr \<Rightarrow> ptr \<Rightarrow> nat \<Rightarrow> ptr prog" where
  "bigint_shli dest0 x n h =
     (bnd (if dest0 = NULL then bigint_dup x else ret dest0) (\<lambda>dest.
     bnd (bigint_eqz x) (\<lambda>z.
     bnd (if n = 0 \<or> z then bnd (bigint_mov dest x) (\<lambda>_. ret ())
          else
            (let offset = n mod DIGIT_BITS in
             bnd (deref x) (\<lambda>xs.
               let original_length = length_st xs;
                   new_digits = n div DIGIT_BITS + of_bool (offset \<noteq> 0)
               in
               bnd (resize_sum dest (length_st xs) new_digits) (\<lambda>_.
               bnd (if offset = 0
                    then shli_aligned_loop dest x original_length new_digits 0
                    else shli_loop dest x original_length new_digits offset 0) (\<lambda>_.
               memset0 dest 0 (new_digits - of_bool (offset \<noteq> 0))))))) (\<lambda>_.
     bnd (deref x) (\<lambda>xs.
     bnd (set_negative dest (negative xs)) (\<lambda>_.
     bnd (normalize dest) (\<lambda>_.
     ret dest))))))) h"

function shri_aligned_loop :: "ptr \<Rightarrow> ptr \<Rightarrow> nat \<Rightarrow> nat \<Rightarrow> nat \<Rightarrow> unit prog" where
  "shri_aligned_loop dest x x_length shifted_digits i h =
     (if i < x_length then
        bnd (rd x (i + shifted_digits)) (\<lambda>v.
        bnd (wr dest i v) (\<lambda>_.
          shri_aligned_loop dest x x_length shifted_digits (Suc i))) h
      else ret () h)"
  by pat_completeness auto
termination
  by (relation "measure (\<lambda>(dest, x, x_length, shifted_digits, i, h). x_length - i)") auto

function shri_loop :: "ptr \<Rightarrow> ptr \<Rightarrow> nat \<Rightarrow> nat \<Rightarrow> nat \<Rightarrow> nat \<Rightarrow> unit prog" where
  "shri_loop dest x x_length shifted_digits offset i h =
     (if i < x_length then
        (let from = shifted_digits + i in
         if from < 1 then raise Fault
         else
           bnd (rd x (from - 1)) (\<lambda>lsb.
           bnd (if from < x_length then rd x from else ret 0) (\<lambda>msb.
           bnd (wr dest i
                  (word_of_int
                    (uint DIGIT_MAX AND
                     (push_bit (DIGIT_BITS - offset) (uint msb) OR drop_bit offset (uint lsb)))))
               (\<lambda>_. shri_loop dest x x_length shifted_digits offset (Suc i))))) h
      else ret () h)"
  by pat_completeness auto
termination
  by (relation "measure (\<lambda>(dest, x, x_length, shifted_digits, offset, i, h). x_length - i)")
     auto

text \<open>
  \<open>bigint_shri\<close> writes \<open>dest->digits[i]\<close> for every \<open>i < x->length\<close> before it resizes
  \<open>dest\<close>, and reads \<open>x->digits\<close> up to index \<open>x->length - 1 + shifted_digits\<close>. The
  length of \<open>x\<close> does not change while the loops run, so they take it as \<open>x_length\<close>.
\<close>

definition bigint_shri :: "ptr \<Rightarrow> ptr \<Rightarrow> nat \<Rightarrow> ptr prog" where
  "bigint_shri dest0 x n h =
     (bnd (if dest0 = NULL then bigint_dup x else ret dest0) (\<lambda>dest.
     bnd (deref x) (\<lambda>xs.
     bnd (if n = 0 \<or> length_st xs = 0 then bnd (bigint_mov dest x) (\<lambda>_. ret ())
          else if n \<ge> DIGIT_BITS * length_st xs then bigint_movui dest 0
          else
            (let offset = n mod DIGIT_BITS;
                 shifted_digits = n div DIGIT_BITS + of_bool (offset \<noteq> 0)
             in
             bnd (if offset = 0
                  then shri_aligned_loop dest x (length_st xs) shifted_digits 0
                  else shri_loop dest x (length_st xs) shifted_digits offset 0) (\<lambda>_.
             bnd (deref x) (\<lambda>xs'.
             resize dest (length_st xs' - shifted_digits + of_bool (offset \<noteq> 0)))))) (\<lambda>_.
     bnd (deref x) (\<lambda>xs'.
     bnd (set_negative dest (negative xs')) (\<lambda>_.
     bnd (normalize dest) (\<lambda>_.
     ret dest))))))) h"

section \<open>Addition and subtraction\<close>

definition bigint_add :: "ptr \<Rightarrow> ptr \<Rightarrow> ptr \<Rightarrow> ptr prog" where
  "bigint_add dest0 a b h =
     (bnd (if dest0 = NULL then bigint_from_int 0 else ret dest0) (\<lambda>dest.
     bnd (magnitude_cmp a b) (\<lambda>cmp.
     bnd (deref a) (\<lambda>as.
     bnd (deref b) (\<lambda>bs.
       if negative as = negative bs then
         bnd (set_negative dest (negative as)) (\<lambda>_. magnitude_sum dest a b)
       else if cmp > 0 then
         bnd (set_negative dest (negative as)) (\<lambda>_. magnitude_delta dest a b)
       else if cmp < 0 then
         bnd (set_negative dest (negative bs)) (\<lambda>_. magnitude_delta dest b a)
       else
         bnd (bigint_movui dest 0) (\<lambda>_. ret dest)))))) h"

definition bigint_sub :: "ptr \<Rightarrow> ptr \<Rightarrow> ptr \<Rightarrow> ptr prog" where
  "bigint_sub dest0 a b h =
     (bnd (if dest0 \<noteq> NULL then
            bnd (if dest0 \<noteq> a \<and> dest0 \<noteq> b then bigint_movui dest0 0 else ret ()) (\<lambda>_.
            ret dest0)
          else bigint_from_int 0) (\<lambda>dest.
     bnd (magnitude_cmp a b) (\<lambda>cmp.
     bnd (deref a) (\<lambda>as.
     bnd (deref b) (\<lambda>bs.
       if \<not> negative as \<and> \<not> negative bs then
         (if cmp \<ge> 0 then
            bnd (magnitude_delta dest a b) (\<lambda>result.
            bnd (set_negative dest False) (\<lambda>_. ret result))
          else
            bnd (magnitude_delta dest b a) (\<lambda>result.
            bnd (set_negative dest True) (\<lambda>_. ret result)))
       else if \<not> negative as \<and> negative bs then
         bnd (magnitude_sum dest a b) (\<lambda>result.
         bnd (set_negative dest False) (\<lambda>_. ret result))
       else if negative as \<and> \<not> negative bs then
         bnd (magnitude_sum dest a b) (\<lambda>result.
         bnd (deref dest) (\<lambda>ds.
         bnd (set_negative dest (length_st ds \<noteq> 0)) (\<lambda>_. ret result)))
       else if cmp \<ge> 0 then
         bnd (magnitude_delta dest a b) (\<lambda>result.
         bnd (deref dest) (\<lambda>ds.
         bnd (set_negative dest (length_st ds \<noteq> 0)) (\<lambda>_. ret result)))
       else
         bnd (magnitude_delta dest b a) (\<lambda>result.
         bnd (set_negative dest False) (\<lambda>_. ret result))))))) h"

section \<open>Multiplication\<close>

text \<open>
  In the loops of \<open>bigint_mul\<close> the accumulator \<open>dest\<close> is never \<open>a\<close> or \<open>b\<close> (when
  the caller's destination is one of them the function works on a duplicate), so \<open>a\<close> and
  \<open>b\<close> are only read and the loops run on the structure of \<open>dest\<close>. \<open>product\<close> and
  \<open>carry\<close> are \<open>uint16_t\<close>.
\<close>

function mul_inner ::
  "bigint_st \<Rightarrow> bigint_st \<Rightarrow> bigint_st \<Rightarrow> nat \<Rightarrow> nat \<Rightarrow> nat \<Rightarrow> int \<Rightarrow> error + bigint_st \<times> int"
  where
  "mul_inner dest a b max_factor_length i j carry =
     (if j < max_factor_length then
        ebind (if i < length_st a then get_digit a i else Inr 0) (\<lambda>a_i.
        ebind (if j < length_st b then get_digit b j else Inr 0) (\<lambda>b_j.
        ebind (get_digit dest (i + j)) (\<lambda>d.
          let product = (uint d + carry + uint a_i * uint b_j) mod 2 ^ 16;
              carry' = uint DIGIT_MAX AND drop_bit DIGIT_BITS product;
              product' = uint DIGIT_MAX AND product
          in
          ebind (set_digit dest (i + j) (word_of_int product')) (\<lambda>dest'.
            mul_inner
              (if product' \<noteq> 0 \<and> i + j + 1 > length_st dest'
               then dest'\<lparr>length_st := i + j + 1\<rparr> else dest')
              a b max_factor_length i (Suc j) carry'))))
      else Inr (dest, carry))"
  by pat_completeness auto
termination
  by (relation "measure (\<lambda>(dest, a, b, m, i, j, carry). m - j)") auto

function mul_outer ::
  "bigint_st \<Rightarrow> bigint_st \<Rightarrow> bigint_st \<Rightarrow> nat \<Rightarrow> nat \<Rightarrow> error + bigint_st" where
  "mul_outer dest a b max_factor_length i =
     (if i < max_factor_length then
        ebind (mul_inner dest a b max_factor_length i 0 0) (\<lambda>(dest', carry).
        ebind (if carry \<noteq> 0 then
                 set_digit
                   (if i + max_factor_length + 1 > length_st dest'
                    then dest'\<lparr>length_st := i + max_factor_length + 1\<rparr> else dest')
                   (i + max_factor_length) (word_of_int carry)
               else Inr dest') (\<lambda>dest''.
          mul_outer dest'' a b max_factor_length (Suc i)))
      else Inr dest)"
  by pat_completeness auto
termination
  by (relation "measure (\<lambda>(dest, a, b, m, i). m - i)") auto

text \<open>\<open>xfree(p)\<close> on a structure alone, its digit array staying allocated.\<close>

definition free_struct :: "ptr \<Rightarrow> unit prog" where
  "free_struct p h =
     (case map_of (objs h) p of
        None \<Rightarrow> Inl Fault
      | Some x \<Rightarrow> Inr ((), h\<lparr>objs := AList.delete p (objs h)\<rparr>))"

text \<open>The label \<open>done\<close> of \<open>bigint_mul\<close>.\<close>

definition mul_done :: "ptr \<Rightarrow> ptr \<Rightarrow> ptr \<Rightarrow> ptr \<Rightarrow> ptr prog" where
  "mul_done original_dest dest a b h =
     (bnd (if original_dest \<noteq> NULL \<and> dest \<noteq> original_dest then
            bnd (deref original_dest) (\<lambda>os.
            bnd (if digits_off os \<noteq> 0 then raise Fault else ret ()) (\<lambda>_.
            bnd (deref dest) (\<lambda>ds.
            bnd (assign original_dest ds) (\<lambda>_.
            bnd (free_struct dest) (\<lambda>_.
            ret original_dest)))))
          else ret dest) (\<lambda>dest'.
     bnd (deref a) (\<lambda>as.
     bnd (deref b) (\<lambda>bs.
     bnd (set_negative dest' (negative as \<noteq> negative bs)) (\<lambda>_.
     bnd (normalize dest') (\<lambda>_.
     ret dest')))))) h"

definition bigint_mul :: "ptr \<Rightarrow> ptr \<Rightarrow> ptr \<Rightarrow> ptr prog" where
  "bigint_mul original_dest a b h =
     (bnd (if original_dest = NULL then bigint_from_int 0
          else if original_dest = a \<or> original_dest = b then bigint_dup original_dest
          else ret original_dest) (\<lambda>dest.
     bnd (deref a) (\<lambda>as.
     bnd (deref b) (\<lambda>bs.
       if length_st as = 0 \<or> length_st bs = 0 then
         bnd (set_length dest 0) (\<lambda>_.
         bnd (set_negative dest False) (\<lambda>_.
         ret dest))
       else
         bnd (if length_st as > 1 then bigint_is_power_of_2 a else ret False) (\<lambda>a_pow2.
           if a_pow2 then
             bnd (ctz a) (\<lambda>k.
             bnd (bigint_shli dest b k) (\<lambda>_.
             mul_done original_dest dest a b))
           else
             bnd (if length_st bs > 1 then bigint_is_power_of_2 b else ret False) (\<lambda>b_pow2.
               if b_pow2 then
                 bnd (ctz b) (\<lambda>k.
                 bnd (bigint_shli dest a k) (\<lambda>_.
                 mul_done original_dest dest a b))
               else
                 bnd (resize_sum dest (length_st as) (length_st bs)) (\<lambda>_.
                 bnd (deref dest) (\<lambda>ds.
                 bnd (memset0 dest 0 (allocated ds)) (\<lambda>_.
                 bnd (deref dest) (\<lambda>ds'.
                   let max_factor_length =
                         (if length_st as > length_st bs then length_st as else length_st bs)
                   in
                   bnd (lift (mul_outer ds' as bs max_factor_length 0)) (\<lambda>ds''.
                   bnd (assign dest ds'') (\<lambda>_.
                   mul_done original_dest dest a b)))))))))))) h"


section \<open>Division\<close>

text \<open>
  \<open>q->digits[q->length - quotient_digits++ - 1] = v\<close>. The index is a \<open>size_t\<close>: when
  \<open>quotient_digits\<close> has reached \<open>q->length\<close> it wraps to the top of the address space,
  outside every allocation.
\<close>

definition put_quotient_digit :: "ptr \<Rightarrow> nat \<Rightarrow> digit_tt \<Rightarrow> unit prog" where
  "put_quotient_digit q quotient_digits v h =
     (bnd (deref q) (\<lambda>qs.
       if length_st qs < quotient_digits + 1 then raise Fault
       else wr q (length_st qs - quotient_digits - 1) v)) h"

text \<open>
  The inner \<open>while (cmp < 0)\<close> of the long division. Its first result is \<open>True\<close> when it
  left by \<open>goto quotient_complete\<close>.
\<close>

function expose_loop ::
  "ptr \<Rightarrow> ptr \<Rightarrow> ptr \<Rightarrow> nat \<Rightarrow> nat \<Rightarrow> int \<Rightarrow> (bool \<times> nat \<times> nat) prog" where
  "expose_loop q intermediate d hidden_digits quotient_digits cmp h =
     (if cmp < 0 then
        (if hidden_digits = 0 then ret (True, hidden_digits, quotient_digits) h
         else
           bnd (deref intermediate) (\<lambda>is.
           bnd (if digits_off is = 0 then raise Fault
                else assign intermediate
                       (is\<lparr>length_st := length_st is + 1, digits_off := digits_off is - 1\<rparr>))
               (\<lambda>_.
           bnd (magnitude_cmp intermediate d) (\<lambda>cmp'.
           bnd (if cmp' < 0 then put_quotient_digit q quotient_digits 0 else ret ()) (\<lambda>_.
             expose_loop q intermediate d (hidden_digits - 1)
               (if cmp' < 0 then Suc quotient_digits else quotient_digits) cmp')))) h)
      else ret (False, hidden_digits, quotient_digits) h)"
  by pat_completeness auto
termination
  by (relation "measure (\<lambda>(q, i, d, hidden_digits, qd, cmp, h). hidden_digits)") auto

text \<open>
  The \<open>for (digit_tt factor = 1; factor <= DIGIT_MAX; factor++)\<close> loop; its test always
  holds and it is left by \<open>break\<close>, at \<open>factor == DIGIT_MAX\<close> at the latest. It returns
  the new \<open>quotient_digits\<close>.
\<close>

lemma factor_step:
  "factor \<noteq> (255 :: digit_tt) \<Longrightarrow> 255 - unat (factor + 1) < 255 - unat factor"
proof -
  assume ne: "factor \<noteq> 255"
  have "unat factor < 2 ^ LENGTH(8)" by (rule unsigned_less)
  then have b: "unat factor < 256" by simp
  have "unat factor \<noteq> unat (255 :: digit_tt)" using ne by (simp add: word_unat_eq_iff)
  then have "unat factor \<noteq> 255" by simp
  with b have lt: "unat factor < 255" by simp
  then have "unat factor + unat (1 :: digit_tt) < 2 ^ LENGTH(8)" by simp
  then have "unat (factor + 1) = unat factor + unat (1 :: digit_tt)"
    by (simp only: unat_add_lem)
  with lt show ?thesis by simp
qed

function factor_loop :: "ptr \<Rightarrow> ptr \<Rightarrow> ptr \<Rightarrow> ptr \<Rightarrow> nat \<Rightarrow> digit_tt \<Rightarrow> nat prog" where
  "factor_loop accumulator intermediate d q quotient_digits factor h =
     bnd (magnitude_sum accumulator accumulator d) (\<lambda>_.
     bnd (magnitude_cmp accumulator intermediate) (\<lambda>cmp.
       if cmp \<ge> 0 \<or> factor = DIGIT_MAX then
         bnd (if cmp > 0
              then bnd (magnitude_delta accumulator accumulator d)
                     (\<lambda>_. ret (word_of_int (uint factor - 1)))
              else ret factor) (\<lambda>factor'.
         bnd (magnitude_delta intermediate intermediate accumulator) (\<lambda>_.
         bnd (put_quotient_digit q quotient_digits factor') (\<lambda>_.
         ret (Suc quotient_digits))))
       else factor_loop accumulator intermediate d q quotient_digits (factor + 1))) h"
  by pat_completeness auto
termination
  by (relation "measure (\<lambda>(a, i, d, q, qd, factor, h). 255 - unat factor)")
     (auto simp: DIGIT_MAX_def factor_step)

text \<open>The \<open>do ... while (hidden_digits)\<close> loop; it returns \<open>quotient_digits\<close>.\<close>

fun div_loop :: "nat \<Rightarrow> ptr \<Rightarrow> ptr \<Rightarrow> ptr \<Rightarrow> ptr \<Rightarrow> nat \<Rightarrow> nat \<Rightarrow> nat prog" where
  "div_loop 0 q intermediate accumulator d hidden_digits quotient_digits h =
     (raise OutOfFuel) h"
| "div_loop (Suc fuel) q intermediate accumulator d hidden_digits quotient_digits h =
     (bnd (magnitude_cmp intermediate d) (\<lambda>cmp.
     bnd (expose_loop q intermediate d hidden_digits quotient_digits cmp)
       (\<lambda>(complete, hidden_digits', quotient_digits').
         if complete then ret quotient_digits'
         else
           bnd (bigint_movui accumulator 0) (\<lambda>_.
           bnd (factor_loop accumulator intermediate d q quotient_digits' 1)
             (\<lambda>quotient_digits''.
               if hidden_digits' \<noteq> 0
               then div_loop fuel q intermediate accumulator d hidden_digits' quotient_digits''
               else ret quotient_digits''))))) h"

text \<open>
  The argument \<open>r\<close> of \<open>bigint_div\<close> is a \<open>bigint_st **\<close>: \<open>None\<close> when the caller
  passes \<open>NULL\<close>, otherwise \<open>Some p\<close> with \<open>p\<close> the pointer it holds (possibly \<open>NULL\<close>).
  The result pairs the returned quotient with what \<open>r\<close> holds afterwards.
\<close>

definition zero_remainder :: "ptr option \<Rightarrow> ptr option prog" where
  "zero_remainder r h =
     ((case r of
        None \<Rightarrow> ret None
      | Some p \<Rightarrow>
          if p \<noteq> NULL then bnd (bigint_movui p 0) (\<lambda>_. ret (Some p))
          else bnd (bigint_from_int 0) (\<lambda>p'. ret (Some p')))) h"

definition set_signs :: "ptr \<Rightarrow> ptr option \<Rightarrow> ptr \<Rightarrow> ptr \<Rightarrow> (ptr \<times> ptr option) prog" where
  "set_signs q r n d h =
     (bnd (deref n) (\<lambda>ns.
     bnd (deref d) (\<lambda>ds.
     bnd (if negative ns \<and> negative ds then
            bnd (set_negative q False) (\<lambda>_.
              case r of
                None \<Rightarrow> ret ()
              | Some p \<Rightarrow> bnd (bigint_nez p) (\<lambda>nz. if nz then set_negative p True else ret ()))
          else if negative ns \<and> \<not> negative ds then
            bnd (bigint_nez q) (\<lambda>qnz.
            bnd (if qnz then set_negative q True else ret ()) (\<lambda>_.
              case r of
                None \<Rightarrow> ret ()
              | Some p \<Rightarrow> bnd (bigint_nez p) (\<lambda>nz. if nz then set_negative p True else ret ())))
          else if \<not> negative ns \<and> negative ds then
            bnd (bigint_nez q) (\<lambda>qnz.
            bnd (if qnz then set_negative q True else ret ()) (\<lambda>_.
              case r of
                None \<Rightarrow> ret ()
              | Some p \<Rightarrow> set_negative p False))
          else ret ()) (\<lambda>_.
     ret (q, r))))) h"

definition div_general ::
  "nat \<Rightarrow> ptr \<Rightarrow> ptr option \<Rightarrow> ptr \<Rightarrow> ptr \<Rightarrow> (ptr \<times> ptr option) prog" where
  "div_general fuel q r n d h =
     (bnd (bigint_from_int 0) (\<lambda>accumulator.
     bnd (case r of
            Some p \<Rightarrow>
              if p \<noteq> NULL then bnd (bigint_mov p n) (\<lambda>_. ret p) else bigint_dup n
          | None \<Rightarrow> bigint_dup n) (\<lambda>intermediate.
     bnd (deref n) (\<lambda>ns.
     bnd (resize q (length_st ns)) (\<lambda>_.
     bnd (deref n) (\<lambda>ns'.
     bnd (deref d) (\<lambda>ds.
     bnd (if length_st ns' < length_st ds then raise Fault else ret ()) (\<lambda>_.
     bnd (deref intermediate) (\<lambda>is.
       let hidden_digits = length_st ns' - length_st ds in
       bnd (assign intermediate
              (is\<lparr>digits_off := digits_off is + hidden_digits\<rparr>)) (\<lambda>_.
       bnd (deref d) (\<lambda>ds'.
       bnd (set_length intermediate (length_st ds')) (\<lambda>_.
       bnd (div_loop fuel q intermediate accumulator d hidden_digits 0) (\<lambda>quotient_digits.
       bnd (bigint_free accumulator) (\<lambda>_.
       bnd (case r of
              Some _ \<Rightarrow> ret (Some intermediate)
            | None \<Rightarrow> bnd (bigint_free intermediate) (\<lambda>_. ret None)) (\<lambda>r'.
       bnd (deref q) (\<lambda>qs.
       bnd (if length_st qs < quotient_digits then raise Fault else ret ()) (\<lambda>_.
       bnd (bigint_shri q q (DIGIT_BITS * (length_st qs - quotient_digits))) (\<lambda>_.
       bnd (set_length q quotient_digits) (\<lambda>_.
       set_signs q r' n d))))))))))))))))))) h"

definition bigint_div ::
  "nat \<Rightarrow> ptr \<Rightarrow> ptr option \<Rightarrow> ptr \<Rightarrow> ptr \<Rightarrow> (ptr \<times> ptr option) prog" where
  "bigint_div fuel q0 r n d h =
     (bnd (bigint_eqz d) (\<lambda>dz.
       if dz then raise EDOM
       else
         bnd (if q0 = NULL then bigint_from_int 0 else ret q0) (\<lambda>q.
         bnd (deref d) (\<lambda>ds.
         bnd (if length_st ds = 1 then bnd (rd d 0) (\<lambda>d0. ret (d0 = 1)) else ret False)
           (\<lambda>d_is_one.
           if d_is_one then
             bnd (zero_remainder r) (\<lambda>r'.
             bnd (bigint_mov q n) (\<lambda>_.
             set_signs q r' n d))
           else
             bnd (magnitude_cmp n d) (\<lambda>cmp.
               if cmp = 0 then
                 bnd (zero_remainder r) (\<lambda>r'.
                 bnd (bigint_movui q 1) (\<lambda>_.
                 set_signs q r' n d))
               else if cmp < 0 then
                 bnd (case r of
                        None \<Rightarrow> ret None
                      | Some p \<Rightarrow>
                          if p \<noteq> NULL then bnd (bigint_mov p n) (\<lambda>_. ret (Some p))
                          else bnd (bigint_dup n) (\<lambda>p'. ret (Some p'))) (\<lambda>r'.
                 bnd (bigint_movui q 0) (\<lambda>_.
                 set_signs q r' n d))
               else
                 bnd (bigint_is_power_of_2 d) (\<lambda>pow2.
                   if pow2 then
                     bnd (ctz d) (\<lambda>k.
                     bnd (bigint_shri q n k) (\<lambda>_.
                     bnd (case r of
                            None \<Rightarrow> ret None
                          | Some p \<Rightarrow>
                              if p \<noteq> NULL then bnd (bigint_movui p 0) (\<lambda>_. ret (Some p))
                              else bnd (bigint_dup n) (\<lambda>p'.
                                   bnd (bigint_movui p' 0) (\<lambda>_. ret (Some p')))) (\<lambda>r'.
                     set_signs q r' n d)))
                   else div_general fuel q r n d))))))) h"

section \<open>Exponentiation\<close>

fun pow_loop :: "nat \<Rightarrow> ptr \<Rightarrow> ptr \<Rightarrow> ptr \<Rightarrow> unit prog" where
  "pow_loop 0 dest base exp h =
     (raise OutOfFuel) h"
| "pow_loop (Suc fuel) dest base exp h =
     (bnd (rd exp 0) (\<lambda>e0.
     bnd (if uint e0 AND 1 \<noteq> 0 then bnd (bigint_mul dest dest base) (\<lambda>_. ret ())
          else ret ()) (\<lambda>_.
     bnd (bigint_shri exp exp 1) (\<lambda>_.
     bnd (bigint_eqz exp) (\<lambda>z.
       if z then ret ()
       else bnd (bigint_mul base base base) (\<lambda>_. pow_loop fuel dest base exp)))))) h"

definition bigint_pow :: "nat \<Rightarrow> ptr \<Rightarrow> ptr \<Rightarrow> ptr \<Rightarrow> ptr prog" where
  "bigint_pow fuel dest0 base0 exp0 h =
     (bnd (bigint_nez exp0) (\<lambda>enz.
     bnd (if enz then bigint_ltz base0 else ret False) (\<lambda>bneg.
     bnd (if enz \<and> bneg then bnd (rd exp0 0) (\<lambda>e0. ret (uint e0 AND 1 \<noteq> 0)) else ret False)
       (\<lambda>neg.
     bnd (bigint_ltz exp0) (\<lambda>eneg.
       if eneg then raise EDOM
       else
         bnd (bigint_dup exp0) (\<lambda>exp.
         bnd (bigint_dup base0) (\<lambda>base.
         bnd (if dest0 \<noteq> NULL then bnd (bigint_movui dest0 1) (\<lambda>_. ret dest0)
              else bigint_from_int 1) (\<lambda>dest.
         bnd (bigint_eqz exp) (\<lambda>ez.
         bnd (if ez then bigint_movui dest 1
              else
                bnd (bigint_eqz base) (\<lambda>bz.
                  if bz then bigint_movui dest 0 else pow_loop fuel dest base exp)) (\<lambda>_.
         bnd (set_negative dest neg) (\<lambda>_.
         bnd (bigint_free base) (\<lambda>_.
         bnd (bigint_free exp) (\<lambda>_.
         ret dest))))))))))))) h"

section \<open>The small-number cache\<close>

fun init_loop :: "nat \<Rightarrow> nat \<Rightarrow> unit prog" where
  "init_loop 0 n h =
     (ret ()) h"
| "init_loop (Suc k) n h =
     (bnd (bigint_from_uint (of_nat n)) (\<lambda>v.
     bnd (\<lambda>h. Inr ((), h\<lparr>small_number_cache := small_number_cache h @ [v]\<rparr>)) (\<lambda>_.
     init_loop k (Suc n)))) h"

text \<open>
  \<open>bigint_init\<close> fills \<open>small_number_cache[0..16]\<close> in order; before it the array holds
  \<open>NULL\<close> everywhere.
\<close>

definition bigint_init :: "int prog" where
  "bigint_init h =
     (if init_done h then Inr (0, h)
      else bnd (init_loop (Suc SMALL_NUMBER_CACHE_MAX) 0)
             (\<lambda>_ h'. Inr (0, h'\<lparr>init_done := True\<rparr>)) (h\<lparr>small_number_cache := []\<rparr>))"

definition cache_entry :: "nat \<Rightarrow> ptr prog" where
  "cache_entry n h =
     (if n < length (small_number_cache h) then Inr (small_number_cache h ! n, h)
      else if n \<le> SMALL_NUMBER_CACHE_MAX then Inr (NULL, h)
      else Inl Fault)"

section \<open>Parser\<close>

text \<open>
  A C string is the list of its characters before the terminating \<open>NUL\<close>; a
  \<open>const char *\<close> into it is an index, and \<open>char_at\<close> reads it as an \<open>int\<close> (the
  terminator at the end).
\<close>

definition char_at :: "string \<Rightarrow> nat \<Rightarrow> nat" where
  "char_at s i = (if i < length s then of_char (s ! i) else 0)"

definition digit_value :: "nat \<Rightarrow> error + nat" where
  "digit_value c =
     (if c \<ge> of_char CHR ''0'' \<and> c \<le> of_char CHR ''9'' then Inr (c - of_char CHR ''0'')
      else if (c OR 32) \<ge> of_char CHR ''a'' \<and> (c OR 32) \<le> of_char CHR ''z''
      then Inr ((c OR 32) - of_char CHR ''a'' + 10)
      else Inl EINVAL)"

text \<open>
  The label \<open>error:\<close> of \<open>bigint_strtobif\<close> frees \<open>exponent\<close> when it is set, frees
  \<open>dest\<close> and returns \<open>NULL\<close>, \<open>errno\<close> being what the failure left. Once an exponent has
  been started \<open>dest\<close> is \<open>exponent\<close>, so the structure is freed twice.
\<close>

definition goto_error :: "ptr \<Rightarrow> ptr \<Rightarrow> error \<Rightarrow> 'a prog" where
  "goto_error exponent dest e h =
     (bnd (if exponent \<noteq> NULL then bigint_free exponent else ret ()) (\<lambda>_.
      bnd (bigint_free dest) (\<lambda>_.
      raise e))) h"

text \<open>
  A call whose failure is answered with \<open>goto error\<close>. A failed call returns no store, so
  the label runs on the store from before the call: it only frees \<open>exponent\<close> and \<open>dest\<close>,
  which a failing callee leaves allocated. Undefined behaviour inside the call stays what it
  is.
\<close>

definition or_goto_error :: "ptr \<Rightarrow> ptr \<Rightarrow> 'a prog \<Rightarrow> 'a prog" where
  "or_goto_error exponent dest m h =
     (case m h of
        Inr r \<Rightarrow> Inr r
      | Inl e \<Rightarrow> if e = Fault \<or> e = OutOfFuel then Inl e else goto_error exponent dest e h)"

text \<open>
  The \<open>for (; *str; str++)\<close> loop. It returns where it stopped and the final \<open>dest\<close>,
  \<open>exponent\<close>, \<open>decimal\<close> and \<open>eom\<close> (\<open>None\<close> for a \<open>NULL\<close> \<open>const char *\<close>).
\<close>

function parse_loop ::
  "string \<Rightarrow> nat \<Rightarrow> nat \<Rightarrow> ptr \<Rightarrow> ptr \<Rightarrow> nat option \<Rightarrow> nat option
   \<Rightarrow> (nat \<times> ptr \<times> ptr \<times> nat option \<times> nat option) prog" where
  "parse_loop s base pos dest exponent decimal eom h =
     (if char_at s pos \<noteq> 0 then
        (let c = char_at s pos in
         if base = 10 \<and> (c OR 32) = of_char CHR ''e'' then
           (if exponent \<noteq> NULL then goto_error exponent dest EINVAL
            else
              bnd (or_goto_error NULL dest (bigint_from_int 0)) (\<lambda>exponent'.
                parse_loop s base (Suc pos) exponent' exponent' decimal
                  (if decimal \<noteq> None then Some (pos - 1) else eom)))
         else if base = 10 \<and> c = of_char CHR ''.'' then
           (if exponent \<noteq> NULL \<or> decimal \<noteq> None then goto_error exponent dest EINVAL
            else parse_loop s base (Suc pos) dest exponent (Some pos) eom)
         else
           bnd (or_goto_error exponent dest (lift (digit_value c))) (\<lambda>v.
             if v \<ge> base then goto_error exponent dest EINVAL
             else
               bnd (if decimal = None \<or> exponent \<noteq> NULL then
                      bnd (cache_entry base) (\<lambda>cb.
                      bnd (or_goto_error exponent dest (bigint_mul dest dest cb)) (\<lambda>_.
                      bnd (cache_entry v) (\<lambda>cv.
                      bnd (or_goto_error exponent dest (magnitude_sum dest dest cv)) (\<lambda>_.
                      ret ()))))
                    else ret ()) (\<lambda>_.
               parse_loop s base (Suc pos) dest exponent decimal eom))) h
      else ret (pos, dest, exponent, decimal, eom) h)"
  by pat_completeness auto
termination
  by (relation "measure (\<lambda>(s, base, pos, dest, e, d, eom, h). length s - pos)")
     (auto simp: char_at_def split: if_splits)

text \<open>\<open>while (*eom == '0') eom--;\<close>\<close>

function skip_trailing_zeros :: "string \<Rightarrow> nat \<Rightarrow> error + nat" where
  "skip_trailing_zeros s eom =
     (if char_at s eom = of_char CHR ''0'' then
        (if eom = 0 then Inl Fault else skip_trailing_zeros s (eom - 1))
      else Inr eom)"
  by pat_completeness auto
termination
  by (relation "measure (\<lambda>(s, eom). eom)") auto

text \<open>
  The loop that consumes buffered fractional digits; it returns the final \<open>decimal\<close>. It
  leaves for \<open>error:\<close> when a call fails; \<open>bigint_dec\<close> returns a value other than 0
  only when it fails.
\<close>

function fraction_loop :: "string \<Rightarrow> ptr \<Rightarrow> ptr \<Rightarrow> ptr \<Rightarrow> nat \<Rightarrow> nat \<Rightarrow> nat prog" where
  "fraction_loop s result dest exponent decimal eom h =
     bnd (bigint_nez exponent) (\<lambda>nz.
       if nz \<and> decimal \<le> eom then
         bnd (or_goto_error exponent dest (bigint_dec exponent)) (\<lambda>_.
         bnd (cache_entry 10) (\<lambda>ten.
         bnd (or_goto_error exponent dest (bigint_mul result result ten)) (\<lambda>_.
         bnd (cache_entry ((char_at s decimal + 256 - of_char CHR ''0'') mod 256)) (\<lambda>cv.
         bnd (or_goto_error exponent dest (magnitude_sum result result cv)) (\<lambda>_.
         fraction_loop s result dest exponent (Suc decimal) eom)))))
       else ret decimal) h"
  by pat_completeness auto
termination
  by (relation "measure (\<lambda>(s, result, dest, e, decimal, eom, h). Suc eom - decimal)") auto

text \<open>
  \<open>bigint_strtobif(str, fraction)\<close>. \<open>want_fraction\<close> says whether \<open>fraction\<close> is not
  \<open>NULL\<close>; the second result is \<open>Some i\<close> when the function stored the index \<open>i\<close>
  through it and \<open>None\<close> when it left \<open>*fraction\<close> alone.
\<close>

definition bigint_strtobif :: "nat \<Rightarrow> string \<Rightarrow> bool \<Rightarrow> (ptr \<times> nat option) prog" where
  "bigint_strtobif fuel s want_fraction h =
     (bnd (bigint_from_int 0) (\<lambda>result.
       let pos0 = (if char_at s 0 = of_char CHR ''+'' \<or> char_at s 0 = of_char CHR ''-''
                   then 1 else 0);
           neg = (char_at s 0 = of_char CHR ''-'');
           c1 = char_at s (pos0 + 1);
           (base, pos1) =
             (if char_at s pos0 = of_char CHR ''0'' then
                (if c1 = of_char CHR ''b'' \<or> c1 = of_char CHR ''B'' then (2, pos0 + 2)
                 else if c1 = of_char CHR ''o'' \<or> c1 = of_char CHR ''O'' then (8, pos0 + 2)
                 else if c1 = of_char CHR ''x'' \<or> c1 = of_char CHR ''X'' then (16, pos0 + 2)
                 else (if CHR ''.'' \<in> set (drop (pos0 + 1) s) then 10 else 8, pos0 + 1))
              else (10 :: nat, pos0))
       in
       bnd (parse_loop s base pos1 result NULL None None)
         (\<lambda>(pos, dest, exponent, decimal, eom).
       bnd (if exponent \<noteq> NULL \<and> (char_at s (pos - 1) OR 32) = of_char CHR ''e''
            then goto_error exponent dest EINVAL else ret ()) (\<lambda>_.
       bnd (case decimal of
              Some dp \<Rightarrow>
                if exponent \<noteq> NULL then
                  bnd (lift (skip_trailing_zeros s (case eom of None \<Rightarrow> pos - 1 | Some e \<Rightarrow> e)))
                    (\<lambda>eom'.
                      if eom' \<noteq> dp then
                        bnd (fraction_loop s result dest exponent (dp + 1) eom') (\<lambda>decimal'.
                          ret (if want_fraction \<and> decimal' \<noteq> eom' then Some decimal' else None))
                      else ret None)
                else ret None
            | None \<Rightarrow> ret None) (\<lambda>fraction.
       bnd (normalize result) (\<lambda>_.
       bnd (if exponent \<noteq> NULL then
              bnd (cache_entry 10) (\<lambda>ten.
              bnd (or_goto_error exponent dest (bigint_pow fuel exponent ten exponent)) (\<lambda>_.
              bnd (or_goto_error exponent dest (bigint_mul result result exponent)) (\<lambda>_.
              bigint_free exponent)))
            else ret ()) (\<lambda>_.
       bnd (bigint_nez result) (\<lambda>nz.
       bnd (if nz then set_negative result neg else ret ()) (\<lambda>_.
       ret (result, fraction)))))))))) h"

section \<open>Formatter\<close>

text \<open>
  The output buffer is the string written so far (up to its terminator). \<open>sprintf\<close> with
  \<open>DIGIT_OCT_TEMPLATE\<close> (\<open>"%03o"\<close>) and \<open>DIGIT_HEX_TEMPLATE\<close> (\<open>"%02x"\<close>) on one digit:
\<close>

definition numeral_char :: "nat \<Rightarrow> char" where
  "numeral_char numeral_d =
     char_of ((if numeral_d > 9 then of_char CHR ''a'' - 10 else of_char CHR ''0'') + numeral_d)"

definition sprintf_oct :: "digit_tt \<Rightarrow> string" where
  "sprintf_oct d =
     [numeral_char (unat d div 64), numeral_char (unat d div 8 mod 8), numeral_char (unat d mod 8)]"

definition sprintf_hex :: "digit_tt \<Rightarrow> string" where
  "sprintf_hex d = [numeral_char (unat d div 16), numeral_char (unat d mod 16)]"

text \<open>
  The loop for bases 8 and 16, from the most significant digit down: it appends to the
  numerals in the buffer and returns them with the new \<open>written\<close>.
\<close>

function hexoct_loop ::
  "bigint_st \<Rightarrow> nat \<Rightarrow> nat \<Rightarrow> nat \<Rightarrow> nat \<Rightarrow> string \<Rightarrow> error + (nat \<times> string)" where
  "hexoct_loop x base buflen n written num =
     (if n < length_st x then
        ebind (get_digit x (length_st x - n - 1)) (\<lambda>d.
          let hexoctbuf = (if base = 8 then sprintf_oct d else sprintf_hex d);
              written' = written + length hexoctbuf
          in if written' + 1 > buflen then Inl ERANGE
             else hexoct_loop x base buflen (Suc n) written' (num @ hexoctbuf))
      else Inr (written, num))"
  by pat_completeness auto
termination
  by (relation "measure (\<lambda>(x, base, buflen, n, written, num). length_st x - n)") auto

text \<open>
  \<open>while (*++cursor == '0');\<close> on the numerals \<open>num\<close>, \<open>cursor\<close> counted from
  \<open>number_start\<close>; the copy loop that follows moves the rest of the string down.
\<close>

function skip_leading_zeros :: "string \<Rightarrow> nat \<Rightarrow> nat" where
  "skip_leading_zeros num cursor =
     (if char_at num (Suc cursor) = of_char CHR ''0'' then skip_leading_zeros num (Suc cursor)
      else Suc cursor)"
  by pat_completeness auto
termination
  by (relation "measure (\<lambda>(num, cursor). length num - cursor)")
     (auto simp: char_at_def split: if_splits)

text \<open>
  The loop for bases 2 and 10, which produces the numerals least significant first; it
  returns the new \<open>written\<close>, the numerals in that order and the pointer \<open>remainder\<close>.
\<close>

fun numeral_loop ::
  "nat \<Rightarrow> nat \<Rightarrow> nat \<Rightarrow> ptr \<Rightarrow> ptr \<Rightarrow> nat \<Rightarrow> nat \<Rightarrow> string \<Rightarrow> (nat \<times> string \<times> ptr) prog"
  where
  "numeral_loop fuel 0 base accumulator remainder buflen written num h =
     (raise OutOfFuel) h"
| "numeral_loop fuel (Suc rounds) base accumulator remainder buflen written num h =
     (bnd (bigint_nez accumulator) (\<lambda>nz.
       if nz then
         bnd (if base = 10 then
                bnd (cache_entry 10) (\<lambda>ten.
                bnd (bigint_div fuel accumulator (Some remainder) accumulator ten) (\<lambda>(_, r).
                  let remainder' = (case r of Some p \<Rightarrow> p | None \<Rightarrow> remainder) in
                  bnd (rd remainder' 0) (\<lambda>d. ret (unat d, remainder'))))
              else
                bnd (rd accumulator 0) (\<lambda>d.
                bnd (bigint_shri accumulator accumulator 1) (\<lambda>_.
                ret (nat (uint d AND 1), remainder)))) (\<lambda>(numeral_d, remainder').
           if written + 2 > buflen then raise ERANGE
           else numeral_loop fuel rounds base accumulator remainder' buflen (Suc written)
                  (num @ [numeral_char numeral_d]))
       else ret (written, num, remainder))) h"

text \<open>
  \<open>bigint_snbprint(buf, buflen, x, base)\<close>: the returned count and the string left in
  \<open>buf\<close>. \<open>fuel\<close> bounds the rounds of each division and of the numeral loop.
\<close>

definition bigint_snbprint :: "nat \<Rightarrow> nat \<Rightarrow> ptr \<Rightarrow> nat \<Rightarrow> (int \<times> string) prog" where
  "bigint_snbprint fuel buflen x base h =
     (bnd (deref x) (\<lambda>xs.
       if base \<noteq> 2 \<and> base \<noteq> 8 \<and> base \<noteq> 10 \<and> base \<noteq> 16 then raise EINVAL
       else if base \<noteq> 10 \<and> buflen < 4 + of_bool (negative xs) then raise ERANGE
       else if base = 10 \<and> buflen < 2 + of_bool (negative xs) then raise ERANGE
       else
         (let prefix =
                (if negative xs then [CHR ''-''] else []) @
                (if base = 2 then [CHR ''0'', CHR ''b'']
                 else if base = 8 then [CHR ''0'', CHR ''o'']
                 else if base = 16 then [CHR ''0'', CHR ''x'']
                 else []);
              written = length prefix
          in
          if length_st xs = 0 then ret (int (written + 1), prefix @ [CHR ''0''])
          else if base = 8 \<or> base = 16 then
            bnd (lift (hexoct_loop xs base buflen 0 written [])) (\<lambda>(written', num).
              ret (int written',
                   prefix @ (if char_at num 0 = of_char CHR ''0''
                             then drop (skip_leading_zeros num 0) num else num)))
          else
            bnd (bigint_dup x) (\<lambda>accumulator.
            bnd (if base = 10 then bigint_from_int 0 else ret NULL) (\<lambda>remainder.
            bnd (numeral_loop fuel fuel base accumulator remainder buflen written [])
              (\<lambda>(written', num, remainder').
            bnd (if remainder' \<noteq> NULL then bigint_free remainder' else ret ()) (\<lambda>_.
            bnd (bigint_free accumulator) (\<lambda>_.
            ret (int written', prefix @ rev num))))))))) h"

text \<open>
  \<open>bigint_tostrb(x, base)\<close> sizes the buffer itself. \<open>CEIL_DIV\<close> is the macro of the
  source.
\<close>

definition CEIL_DIV :: "nat \<Rightarrow> nat \<Rightarrow> nat" where
  "CEIL_DIV n d = n div d + of_bool (n mod d \<noteq> 0)"

definition bigint_tostrb :: "nat \<Rightarrow> ptr \<Rightarrow> nat \<Rightarrow> string prog" where
  "bigint_tostrb fuel x base h =
     (bnd (deref x) (\<lambda>xs.
       let bits_in_value = DIGIT_BITS * (if length_st xs \<noteq> 0 then length_st xs else 1) in
       if base \<noteq> 2 \<and> base \<noteq> 8 \<and> base \<noteq> 10 \<and> base \<noteq> 16 then raise EINVAL
       else
         (let bits_per_numeral = (if base = 2 then 1 else if base = 16 then 4 else 3);
              max_length =
                of_bool (negative xs) + (if base = 10 then 0 else 2) +
                CEIL_DIV bits_in_value bits_per_numeral + 1
          in bnd (bigint_snbprint fuel max_length x base) (\<lambda>(_, str). ret str)))) h"

section \<open>What a structure denotes\<close>

text \<open>
  The live digits of a structure are the first \<open>length\<close> digits behind its pointer,
  least significant first; its magnitude is their value in base 256 and its value carries
  the sign flag.
\<close>

definition live_digits :: "'d bigint_struct \<Rightarrow> 'd list" where
  "live_digits x = take (length_st x) (drop (digits_off x) (digits x))"

fun magnitude_of :: "digit_tt list \<Rightarrow> int" where
  "magnitude_of [] = 0"
| "magnitude_of (d # ds) = uint d + 256 * magnitude_of ds"

definition bigint_value :: "bigint_st \<Rightarrow> int" where
  "bigint_value x =
     (if negative x then - magnitude_of (live_digits x) else magnitude_of (live_digits x))"

text \<open>The store before \<open>bigint_init\<close>, with \<open>g\<close> for what fresh memory holds.\<close>

definition empty_heap :: "(nat \<Rightarrow> 'd) \<Rightarrow> 'd memory" where
  "empty_heap g =
     \<lparr>objs = [], brk = 1, garbage = g, small_number_cache = [], init_done = False\<rparr>"

text \<open>Reading off results: the signed value and the raw fields of the structure at a pointer.\<close>

definition value_at :: "ptr \<Rightarrow> int prog" where
  "value_at p h =
     (bnd (deref p) (\<lambda>x. ret (bigint_value x))) h"

definition outcome :: "error + ('a \<times> 'd memory) \<Rightarrow> error + 'a" where
  "outcome r = (case r of Inl e \<Rightarrow> Inl e | Inr (v, h) \<Rightarrow> Inr v)"

text \<open>
  The structure a pointer leads to, and the store after that structure has been replaced.
\<close>

definition obj_at :: "'d memory \<Rightarrow> ptr \<Rightarrow> 'd bigint_struct option" where
  "obj_at h p = map_of (objs h) p"

definition store :: "ptr \<Rightarrow> 'd bigint_struct \<Rightarrow> 'd memory \<Rightarrow> 'd memory" where
  "store p x h = h\<lparr>objs := AList.update p x (objs h)\<rparr>"

text \<open>
  A valid structure: \<open>digits\<close> points at the start of an array of \<open>allocated\<close> digits,
  there is at least one of them (every structure is created with 16, and \<open>resize\<close> only
  grows), the live digits fit, and the representation invariants hold: the most
  significant live digit is not zero (N1) and zero is not negative (N2).
\<close>

definition wf_bigint :: "bigint_st \<Rightarrow> bool" where
  "wf_bigint x \<longleftrightarrow>
     digits_off x = 0 \<and> allocated x = length (digits x) \<and> 1 \<le> allocated x \<and>
     length_st x \<le> allocated x \<and>
     (0 < length_st x \<longrightarrow> digits x ! (length_st x - 1) \<noteq> 0) \<and>
     (length_st x = 0 \<longrightarrow> \<not> negative x)"

text \<open>The digit of a number of \<open>len\<close> digits in column \<open>i\<close>, zero past its end.\<close>

definition column :: "digit_tt list \<Rightarrow> nat \<Rightarrow> nat \<Rightarrow> int" where
  "column ds len i = (if i < len then uint (ds ! i) else 0)"

section \<open>Client programs\<close>

text \<open>
  Small callers of the public interface, as a C program would write them: the operands are
  built with \<open>bigint_from_int\<close>, the operation is called, and the results are read back.
  Each runs from \<open>empty_heap g\<close>, for any contents \<open>g\<close> of fresh memory.
\<close>

definition read_div_results :: "ptr \<times> ptr option \<Rightarrow> (int \<times> int option) prog" where
  "read_div_results qr h =
     (bnd (value_at (fst qr)) (\<lambda>qv.
        case snd qr of
          None \<Rightarrow> ret (qv, None)
        | Some p \<Rightarrow> bnd (value_at p) (\<lambda>rv. ret (qv, Some rv)))) h"

text \<open>
  \<open>q = bigint_from_int(0); r = NULL; bigint_div(q, &r, n, d)\<close>: the values of the quotient
  and of the remainder.
\<close>

definition div_ints :: "nat \<Rightarrow> 64 word \<Rightarrow> 64 word \<Rightarrow> (int \<times> int option) prog" where
  "div_ints fuel n d h =
     (bnd (bigint_from_int n) (\<lambda>np.
      bnd (bigint_from_int d) (\<lambda>dp.
      bnd (bigint_from_int 0) (\<lambda>q.
      bnd (bigint_div fuel q (Some NULL) np dp) read_div_results)))) h"

text \<open>
  \<open>bigint_mov(dest, src)\<close> on \<open>dest = bigint_from_int(a)\<close> and \<open>src = bigint_from_int(b)\<close>:
  the value, the length and the sign flag of \<open>dest\<close> afterwards.
\<close>

definition mov_ints :: "64 word \<Rightarrow> 64 word \<Rightarrow> (int \<times> nat \<times> bool) prog" where
  "mov_ints a b h =
     (bnd (bigint_from_int a) (\<lambda>dest.
      bnd (bigint_from_int b) (\<lambda>src.
      bnd (bigint_mov dest src) (\<lambda>_.
      bnd (value_at dest) (\<lambda>v.
      bnd (deref dest) (\<lambda>x.
      ret (v, length_st x, negative x))))))) h"

text \<open>\<open>bigint_mul(a, a, b)\<close>, the destination being the first operand, and the value of \<open>a\<close>.\<close>

definition mul_ints_in_place :: "64 word \<Rightarrow> 64 word \<Rightarrow> int prog" where
  "mul_ints_in_place a b h =
     (bnd (bigint_from_int a) (\<lambda>ap.
      bnd (bigint_from_int b) (\<lambda>bp.
      bnd (bigint_mul ap ap bp) (\<lambda>_.
      value_at ap)))) h"

text \<open>\<open>bigint_mul(dest, a, b)\<close> with a destination of its own, and the value of \<open>dest\<close>.\<close>

definition mul_ints :: "64 word \<Rightarrow> 64 word \<Rightarrow> int prog" where
  "mul_ints a b h =
     (bnd (bigint_from_int a) (\<lambda>ap.
      bnd (bigint_from_int b) (\<lambda>bp.
      bnd (bigint_from_int 0) (\<lambda>dest.
      bnd (bigint_mul dest ap bp) (\<lambda>_.
      value_at dest))))) h"

text \<open>\<open>bigint_pow(dest, base, exp)\<close> with \<open>dest = bigint_from_int(0)\<close>, and the value of \<open>dest\<close>.\<close>

definition pow_ints :: "nat \<Rightarrow> 64 word \<Rightarrow> 64 word \<Rightarrow> int prog" where
  "pow_ints fuel b e h =
     (bnd (bigint_from_int b) (\<lambda>bp.
      bnd (bigint_from_int e) (\<lambda>ep.
      bnd (bigint_from_int 0) (\<lambda>dest.
      bnd (bigint_pow fuel dest bp ep) (\<lambda>_.
      value_at dest))))) h"

text \<open>
  \<open>bigint_init(); x = bigint_strtobif(s, &fraction)\<close>: the value parsed and what was stored
  through \<open>fraction\<close>.
\<close>

definition parse_string :: "nat \<Rightarrow> string \<Rightarrow> (int \<times> nat option) prog" where
  "parse_string fuel s h =
     (bnd bigint_init (\<lambda>_.
      bnd (bigint_strtobif fuel s True) (\<lambda>(x, fraction).
      bnd (value_at x) (\<lambda>v.
      ret (v, fraction))))) h"

text \<open>
  \<open>bigint_init(); x = bigint_from_int(v); bigint_snbprint(buf, buflen, x, base);
  y = bigint_strtobif(buf, NULL)\<close>: the string printed and the value parsed back from it.
\<close>

definition print_then_parse :: "nat \<Rightarrow> nat \<Rightarrow> 64 word \<Rightarrow> nat \<Rightarrow> (string \<times> int) prog" where
  "print_then_parse fuel buflen v base h =
     (bnd bigint_init (\<lambda>_.
      bnd (bigint_from_int v) (\<lambda>x.
      bnd (bigint_snbprint fuel buflen x base) (\<lambda>(_, buf).
      bnd (bigint_strtobif fuel buf False) (\<lambda>(y, _).
      bnd (value_at y) (\<lambda>v'.
      ret (buf, v'))))))) h"

text \<open>
  A non-negative big integer with the live digits \<open>ds\<close>, least significant first, in an
  array of \<open>n\<close> digits.
\<close>

definition bigint_of_digits :: "nat \<Rightarrow> 'd::zero list \<Rightarrow> 'd bigint_struct" where
  "bigint_of_digits n ds =
     \<lparr>digits = ds @ replicate (n - length ds) 0, digits_off = 0, allocated = n,
      length_st = length ds, negative = False\<rparr>"

text \<open>
  \<open>magnitude_sum(dest, a, b)\<close> at any digit width, as \<open>bigint_add\<close> calls it for operands
  of one sign: \<open>a\<close> and \<open>b\<close> hold the given digits, \<open>dest\<close> is a zero of its own, each in an
  array of \<open>n\<close> digits (\<open>bigint_from_int\<close> allocates \<open>2 * DIGITS_FOR_INTMAX\<close>, which is 4
  with 32-bit digits); the result is the live digits of \<open>dest\<close>.
\<close>

definition sum_digits ::
  "nat \<Rightarrow> 'w::len word list \<Rightarrow> 'w word list \<Rightarrow> ('w word, 'w word list) run" where
  "sum_digits n a_digits b_digits h =
     (bnd (malloc_st (bigint_of_digits n a_digits)) (\<lambda>a.
      bnd (malloc_st (bigint_of_digits n b_digits)) (\<lambda>b.
      bnd (malloc_st (bigint_of_digits n [])) (\<lambda>dest.
      bnd (magnitude_sum dest a b) (\<lambda>r.
      bnd (deref r) (\<lambda>x.
      ret (live_digits x))))))) h"

section \<open>Reasoning about the model\<close>

text \<open>
  The equations of the loops are unfolded by hand, one round at a time, so they are taken
  out of the simplifier's rules.
\<close>

declare resize_grow.simps [simp del] is_power_of_2_loop.simps [simp del]
  movui_loop.simps [simp del] ctz_bits.simps [simp del] ctz_loop.simps [simp del]
  normalize_loop.simps [simp del] borrow_loop.simps [simp del] inc_loop.simps [simp del]
  cmp_loop.simps [simp del] delta_loop.simps [simp del] sum_loop.simps [simp del]
  shli_aligned_loop.simps [simp del] shli_loop.simps [simp del]
  shri_aligned_loop.simps [simp del] shri_loop.simps [simp del]
  mul_inner.simps [simp del] mul_outer.simps [simp del]
  expose_loop.simps [simp del] factor_loop.simps [simp del] parse_loop.simps [simp del]
  skip_trailing_zeros.simps [simp del] fraction_loop.simps [simp del]
  hexoct_loop.simps [simp del] skip_leading_zeros.simps [simp del]

subsection \<open>The store, digits and magnitudes\<close>

lemma obj_at_store: "obj_at (store p x h) q = (if q = p then Some x else obj_at h q)"
  by (simp add: obj_at_def store_def update_conv')

lemma deref_run: "obj_at h p = Some x \<Longrightarrow> deref p h = Inr (x, h)"
  by (simp add: deref_def obj_at_def)

lemma assign_run: "obj_at h p = Some x0 \<Longrightarrow> assign p x h = Inr ((), store p x h)"
  by (simp add: assign_def obj_at_def store_def)

lemma lift_Inr: "lift (Inr v) h = Inr (v, h)"
  by (simp add: lift_def)

lemma ebind_Inr: "ebind (Inr v) f = f v"
  by (simp add: ebind_def)

lemma get_digit_run:
  "digits_off x = 0 \<Longrightarrow> i < length (digits x) \<Longrightarrow> get_digit x i = Inr (digits x ! i)"
  by (simp add: get_digit_def)

lemma set_digit_run:
  "digits_off x = 0 \<Longrightarrow> i < length (digits x) \<Longrightarrow>
   set_digit x i v = Inr (x\<lparr>digits := (digits x)[i := v]\<rparr>)"
  by (simp add: set_digit_def)

lemma magnitude_of_append:
  "magnitude_of (xs @ ys) = magnitude_of xs + 256 ^ length xs * magnitude_of ys"
  by (induction xs) (simp_all add: algebra_simps)

lemma magnitude_of_nonneg: "0 \<le> magnitude_of xs"
  by (induction xs) simp_all

lemma magnitude_of_bound: "magnitude_of xs < 256 ^ length xs"
proof (induction xs)
  case Nil
  show ?case by simp
next
  case (Cons d ds)
  have "uint d < 256" using uint_lt2p [of d] by simp
  moreover have "magnitude_of ds + 1 \<le> 256 ^ length ds" using Cons by simp
  then have "256 * (magnitude_of ds + 1) \<le> 256 * 256 ^ length ds" by simp
  ultimately show ?case by (simp add: algebra_simps)
qed

lemma magnitude_of_take_Suc:
  "n < length xs \<Longrightarrow>
   magnitude_of (take (Suc n) xs) = magnitude_of (take n xs) + 256 ^ n * uint (xs ! n)"
  by (simp add: take_Suc_conv_app_nth magnitude_of_append)

lemma magnitude_of_update:
  "i < length xs \<Longrightarrow>
   magnitude_of (xs[i := v]) = magnitude_of xs + 256 ^ i * (uint v - uint (xs ! i))"
proof (induction xs arbitrary: i)
  case Nil
  then show ?case by simp
next
  case (Cons d ds)
  show ?case
  proof (cases i)
    case 0
    then show ?thesis by simp
  next
    case (Suc k)
    with Cons.prems have "k < length ds" by simp
    then have "magnitude_of (ds[k := v]) = magnitude_of ds + 256 ^ k * (uint v - uint (ds ! k))"
      by (rule Cons.IH)
    with Suc show ?thesis by (simp add: ring_distribs)
  qed
qed


lemma uint_digit_store: "uint (word_of_int k :: digit_tt) = k mod 256"
  by (simp add: uint_word_of_int)

lemma uint_digit_lt: "uint (d :: digit_tt) < 256"
  using uint_lt2p [of d] by simp

lemma digit_and_max: "uint (s :: digit_tt) AND uint DIGIT_MAX = uint s"
proof -
  have "uint s AND mask 8 = take_bit 8 (uint s)" by (simp add: take_bit_eq_mask)
  moreover have "take_bit 8 (uint s) = uint s"
    using uint_digit_lt [of s] by (simp add: take_bit_int_eq_self)
  moreover have "(mask 8 :: int) = 255" by (simp add: mask_eq_exp_minus_1)
  ultimately show ?thesis by (simp add: DIGIT_MAX_def)
qed

subsection \<open>Normalisation, increment, decrement and growth\<close>

lemma normalize_loop_run:
  "digits_off x = 0 \<Longrightarrow> length_st x \<le> length (digits x) \<Longrightarrow>
   \<exists>n. normalize_loop x = Inr (x\<lparr>length_st := n\<rparr>) \<and> n \<le> length_st x \<and>
       magnitude_of (take n (digits x)) = magnitude_of (take (length_st x) (digits x)) \<and>
       (0 < n \<longrightarrow> digits x ! (n - 1) \<noteq> 0)"
proof (induction "length_st x" arbitrary: x)
  case 0
  then have "normalize_loop x = Inr x" by (subst normalize_loop.simps) simp
  moreover have "x = x\<lparr>length_st := 0\<rparr>" using 0 by simp
  ultimately show ?case using 0 by (intro exI [of _ 0]) simp
next
  case (Suc m)
  let ?d = "digits x ! m"
  have len: "length_st x = Suc m" using Suc.hyps(2) by simp
  have rd: "get_digit x (length_st x - 1) = Inr ?d"
    using Suc.prems len by (simp add: get_digit_run)
  show ?case
  proof (cases "?d = 0")
    case False
    then have "normalize_loop x = Inr x"
      using rd len by (subst normalize_loop.simps) (simp add: ebind_Inr)
    moreover have "x = x\<lparr>length_st := Suc m\<rparr>" using len by simp
    ultimately show ?thesis using False len by (intro exI [of _ "Suc m"]) simp
  next
    case True
    let ?x' = "x\<lparr>length_st := m\<rparr>"
    have step: "normalize_loop x = normalize_loop ?x'"
      using rd len True by (subst normalize_loop.simps) (simp add: ebind_Inr)
    have "\<exists>n. normalize_loop ?x' = Inr (?x'\<lparr>length_st := n\<rparr>) \<and> n \<le> length_st ?x' \<and>
       magnitude_of (take n (digits ?x')) = magnitude_of (take (length_st ?x') (digits ?x')) \<and>
       (0 < n \<longrightarrow> digits ?x' ! (n - 1) \<noteq> 0)"
      using Suc.prems len by (intro Suc.hyps(1)) simp_all
    then obtain n where n: "normalize_loop ?x' = Inr (?x'\<lparr>length_st := n\<rparr>)" "n \<le> m"
      "magnitude_of (take n (digits x)) = magnitude_of (take m (digits x))"
      "0 < n \<longrightarrow> digits x ! (n - 1) \<noteq> 0"
      by auto
    have "m < length (digits x)" using Suc.prems len by simp
    then have "magnitude_of (take (Suc m) (digits x)) = magnitude_of (take m (digits x))"
      using True by (simp add: magnitude_of_take_Suc)
    with n step len show ?thesis by (intro exI [of _ n]) simp
  qed
qed

lemma inc_loop_run:
  "digits_off x = 0 \<Longrightarrow> bound \<le> length (digits x) \<Longrightarrow> i \<le> bound \<Longrightarrow> uint c \<le> 1 \<Longrightarrow>
   \<exists>D c'. inc_loop x i bound c = Inr (x\<lparr>digits := D\<rparr>, c') \<and> length D = length (digits x) \<and>
     uint c' \<le> 1 \<and>
     magnitude_of (take bound D) + 256 ^ bound * uint c' =
       magnitude_of (take bound (digits x)) + 256 ^ i * uint c"
proof (induction "bound - i" arbitrary: x i c)
  case 0
  then have "inc_loop x i bound c = Inr (x, c)" by (subst inc_loop.simps) simp
  moreover have "x = x\<lparr>digits := digits x\<rparr>" by simp
  moreover have "i = bound" using 0 by simp
  ultimately show ?case using 0 by (intro exI [of _ "digits x"] exI [of _ c]) simp
next
  case (Suc m)
  let ?D = "digits x"
  let ?d = "?D ! i"
  let ?sum = "word_of_int (uint ?d + uint c) :: digit_tt"
  let ?c1 = "(if uint ?sum < uint ?d then 1 else 0) :: digit_tt"
  let ?x1 = "x\<lparr>digits := ?D[i := ?sum]\<rparr>"
  have i: "i < bound" "i < length ?D" using Suc.hyps(2) Suc.prems by simp_all
  have rd: "get_digit x i = Inr ?d" using Suc.prems i by (simp add: get_digit_run)
  have wr: "set_digit x i (word_of_int (uint ?sum AND uint DIGIT_MAX)) = Inr ?x1"
    using Suc.prems i by (simp add: set_digit_run digit_and_max)
  have step: "inc_loop x i bound c = inc_loop ?x1 (Suc i) bound ?c1"
    using i rd wr by (subst inc_loop.simps) (simp add: ebind_Inr Let_def)
  have c1: "uint ?c1 \<le> 1" by simp
  have "\<exists>D c'. inc_loop ?x1 (Suc i) bound ?c1 = Inr (?x1\<lparr>digits := D\<rparr>, c') \<and>
     length D = length (digits ?x1) \<and> uint c' \<le> 1 \<and>
     magnitude_of (take bound D) + 256 ^ bound * uint c' =
       magnitude_of (take bound (digits ?x1)) + 256 ^ Suc i * uint ?c1"
    using Suc.hyps(2) Suc.prems i c1 by (intro Suc.hyps(1)) simp_all
  then obtain D c' where D: "inc_loop ?x1 (Suc i) bound ?c1 = Inr (x\<lparr>digits := D\<rparr>, c')"
    "length D = length ?D" "uint c' \<le> 1"
    "magnitude_of (take bound D) + 256 ^ bound * uint c' =
       magnitude_of (take bound (?D[i := ?sum])) + 256 ^ Suc i * uint ?c1"
    by auto
  have "take bound (?D[i := ?sum]) = (take bound ?D)[i := ?sum]"
    using i by (simp add: take_update_swap)
  then have upd: "magnitude_of (take bound (?D[i := ?sum])) =
      magnitude_of (take bound ?D) + 256 ^ i * (uint ?sum - uint ?d)"
    using i Suc.prems by (simp add: magnitude_of_update)
  have dlt: "uint ?d < 256" by (rule uint_digit_lt)
  have dge: "0 \<le> uint ?d" by simp
  have cge: "0 \<le> uint c" by simp
  have sum_eq: "uint ?sum = (uint ?d + uint c) mod 256"
    by (simp only: uint_digit_store)
  have arith: "uint ?sum + 256 * uint ?c1 = uint ?d + uint c"
  proof (cases "uint ?d + uint c < 256")
    case True
    then have "uint ?sum = uint ?d + uint c"
      using dge cge sum_eq by simp
    then show ?thesis using cge by simp
  next
    case False
    then have "uint ?d + uint c = 256" using dlt Suc.prems(4) by simp
    then have "uint ?sum = 0" using sum_eq by simp
    moreover have "0 < uint ?d" using False Suc.prems(4) by simp
    ultimately show ?thesis using \<open>uint ?d + uint c = 256\<close> by simp
  qed
  have "256 ^ i * (uint ?sum - uint ?d) + 256 ^ Suc i * uint ?c1 = 256 ^ i * uint c"
  proof -
    have "256 ^ i * (uint ?sum - uint ?d) + 256 ^ Suc i * uint ?c1 =
          256 ^ i * (uint ?sum + 256 * uint ?c1 - uint ?d)"
      by (simp add: algebra_simps)
    also have "\<dots> = 256 ^ i * uint c" using arith by simp
    finally show ?thesis .
  qed
  with D upd step show ?case
    by (intro exI [of _ D] exI [of _ c']) simp
qed


lemma uint_digit_pred:
  "(d :: digit_tt) \<noteq> 0 \<Longrightarrow> uint (word_of_int (uint d - 1) :: digit_tt) = uint d - 1"
proof -
  assume "d \<noteq> 0"
  then have "uint d \<noteq> 0" by (simp add: uint_0_iff)
  moreover have "0 \<le> uint d" by simp
  ultimately have "0 < uint d" by linarith
  moreover have "uint d < 256" by (rule uint_digit_lt)
  moreover have "uint (word_of_int (uint d - 1) :: digit_tt) = (uint d - 1) mod 256"
    by (simp only: uint_digit_store)
  ultimately show ?thesis by simp
qed

lemma borrow_loop_run:
  "digits_off x = 0 \<Longrightarrow> bound \<le> length (digits x) \<Longrightarrow> j \<le> k \<Longrightarrow> k < bound \<Longrightarrow>
   digits x ! k \<noteq> 0 \<Longrightarrow>
   \<exists>D. borrow_loop x j bound = Inr (x\<lparr>digits := D\<rparr>) \<and> length D = length (digits x) \<and>
     magnitude_of (take bound D) = magnitude_of (take bound (digits x)) - 256 ^ j"
proof (induction "k - j" arbitrary: x j)
  case 0
  let ?D = "digits x"
  let ?v = "word_of_int (uint (?D ! j) - 1) :: digit_tt"
  have j: "j = k" "j < bound" "j < length ?D" using 0 by simp_all
  have nz: "?D ! j \<noteq> 0" using 0 j by simp
  have rd: "get_digit x j = Inr (?D ! j)" using 0 j by (simp add: get_digit_run)
  have wr: "set_digit x j ?v = Inr (x\<lparr>digits := ?D[j := ?v]\<rparr>)"
    using 0 j by (simp only: set_digit_run)
  have run: "borrow_loop x j bound = Inr (x\<lparr>digits := ?D[j := ?v]\<rparr>)"
    using j rd wr nz by (subst borrow_loop.simps) (simp add: ebind_Inr)
  have "take bound (?D[j := ?v]) = (take bound ?D)[j := ?v]"
    using j by (simp add: take_update_swap)
  then have "magnitude_of (take bound (?D[j := ?v])) =
      magnitude_of (take bound ?D) + 256 ^ j * (uint ?v - uint (?D ! j))"
    using j 0 by (simp add: magnitude_of_update)
  moreover have "uint ?v = uint (?D ! j) - 1" using nz by (rule uint_digit_pred)
  ultimately have "magnitude_of (take bound (?D[j := ?v])) = magnitude_of (take bound ?D) - 256 ^ j"
    by simp
  with run show ?case by (intro exI [of _ "?D[j := ?v]"]) simp
next
  case (Suc m)
  let ?D = "digits x"
  have j: "j < k" "j < bound" "j < length ?D" using Suc by simp_all
  have rd: "get_digit x j = Inr (?D ! j)" using Suc.prems j by (simp add: get_digit_run)
  show ?case
  proof (cases "?D ! j = 0")
    case False
    let ?v = "word_of_int (uint (?D ! j) - 1) :: digit_tt"
    have wr: "set_digit x j ?v = Inr (x\<lparr>digits := ?D[j := ?v]\<rparr>)"
      using Suc.prems j by (simp only: set_digit_run)
    have run: "borrow_loop x j bound = Inr (x\<lparr>digits := ?D[j := ?v]\<rparr>)"
      using j rd wr False by (subst borrow_loop.simps) (simp add: ebind_Inr)
    have "take bound (?D[j := ?v]) = (take bound ?D)[j := ?v]"
      using j by (simp add: take_update_swap)
    then have "magnitude_of (take bound (?D[j := ?v])) =
        magnitude_of (take bound ?D) + 256 ^ j * (uint ?v - uint (?D ! j))"
      using j Suc.prems by (simp add: magnitude_of_update)
    moreover have "uint ?v = uint (?D ! j) - 1" using False by (rule uint_digit_pred)
    ultimately have "magnitude_of (take bound (?D[j := ?v])) = magnitude_of (take bound ?D) - 256 ^ j"
      by simp
    with run show ?thesis by (intro exI [of _ "?D[j := ?v]"]) simp
  next
    case True
    let ?x1 = "x\<lparr>digits := ?D[j := DIGIT_MAX]\<rparr>"
    have wr: "set_digit x j DIGIT_MAX = Inr ?x1"
      using Suc.prems j by (simp only: set_digit_run)
    have step: "borrow_loop x j bound = borrow_loop ?x1 (Suc j) bound"
      using j rd wr True by (subst borrow_loop.simps) (simp add: ebind_Inr)
    have "\<exists>D. borrow_loop ?x1 (Suc j) bound = Inr (?x1\<lparr>digits := D\<rparr>) \<and>
        length D = length (digits ?x1) \<and>
        magnitude_of (take bound D) = magnitude_of (take bound (digits ?x1)) - 256 ^ Suc j"
      using Suc.hyps(2) Suc.prems j by (intro Suc.hyps(1)) simp_all
    then obtain D where D: "borrow_loop ?x1 (Suc j) bound = Inr (x\<lparr>digits := D\<rparr>)"
      "length D = length ?D"
      "magnitude_of (take bound D) = magnitude_of (take bound (?D[j := DIGIT_MAX])) - 256 ^ Suc j"
      by auto
    have "take bound (?D[j := DIGIT_MAX]) = (take bound ?D)[j := DIGIT_MAX]"
      using j by (simp add: take_update_swap)
    then have "magnitude_of (take bound (?D[j := DIGIT_MAX])) =
        magnitude_of (take bound ?D) + 256 ^ j * (uint DIGIT_MAX - uint (?D ! j))"
      using j Suc.prems by (simp add: magnitude_of_update)
    then have "magnitude_of (take bound (?D[j := DIGIT_MAX])) =
        magnitude_of (take bound ?D) + 256 ^ j * 255"
      using True by (simp add: DIGIT_MAX_def)
    with D have "magnitude_of (take bound D) = magnitude_of (take bound ?D) - 256 ^ j"
      by simp
    with D step show ?thesis by (intro exI [of _ D]) simp
  qed
qed

lemma magnitude_dec_st_run:
  assumes "digits_off x = 0" and "length_st x \<le> length (digits x)" and "0 < length_st x"
    and "digits x ! (length_st x - 1) \<noteq> 0"
  shows "\<exists>D. magnitude_dec_st x = Inr (x\<lparr>digits := D\<rparr>) \<and> length D = length (digits x) \<and>
     magnitude_of (take (length_st x) D) = magnitude_of (take (length_st x) (digits x)) - 1"
proof -
  let ?D = "digits x"
  let ?n = "length_st x"
  let ?v = "word_of_int (uint (?D ! 0) - 1) :: digit_tt"
  let ?x1 = "x\<lparr>digits := ?D[0 := ?v]\<rparr>"
  have z: "0 < length ?D" using assms(2,3) by linarith
  have rd: "get_digit x 0 = Inr (?D ! 0)" using assms z by (simp add: get_digit_run)
  have wr: "set_digit x 0 ?v = Inr ?x1" using assms z by (simp only: set_digit_run)
  have rd1: "get_digit ?x1 0 = Inr ?v" using assms z by (simp add: get_digit_run)
  have unfold: "magnitude_dec_st x =
      (if ?v = DIGIT_MAX then borrow_loop ?x1 1 ?n else Inr ?x1)"
    using rd wr rd1 by (simp add: magnitude_dec_st_def ebind_Inr)
  have "take ?n (?D[0 := ?v]) = (take ?n ?D)[0 := ?v]"
    using assms by (simp add: take_update_swap)
  then have upd: "magnitude_of (take ?n (?D[0 := ?v])) =
      magnitude_of (take ?n ?D) + (uint ?v - uint (?D ! 0))"
    using assms z by (simp add: magnitude_of_update)
  show ?thesis
  proof (cases "?D ! 0 = 0")
    case False
    then have v: "uint ?v = uint (?D ! 0) - 1" by (rule uint_digit_pred)
    have "uint (?D ! 0) < 256" by (rule uint_digit_lt)
    with v have "uint ?v \<noteq> 255" by simp
    then have "?v \<noteq> DIGIT_MAX" by (auto simp: DIGIT_MAX_def)
    with unfold have "magnitude_dec_st x = Inr ?x1" by simp
    moreover have "magnitude_of (take ?n (?D[0 := ?v])) = magnitude_of (take ?n ?D) - 1"
      using upd v by simp
    ultimately show ?thesis by (intro exI [of _ "?D[0 := ?v]"]) simp
  next
    case True
    then have v: "?v = DIGIT_MAX" by (simp add: DIGIT_MAX_def)
    have n1: "1 < ?n"
    proof (rule ccontr)
      assume "\<not> 1 < ?n"
      with assms(3) have "?n = 1" by simp
      with assms(4) True show False by simp
    qed
    have top: "digits ?x1 ! (?n - 1) \<noteq> 0" using assms(4) n1 by simp
    have "\<exists>D. borrow_loop ?x1 1 ?n = Inr (?x1\<lparr>digits := D\<rparr>) \<and>
        length D = length (digits ?x1) \<and>
        magnitude_of (take ?n D) = magnitude_of (take ?n (digits ?x1)) - 256 ^ 1"
      using assms n1 top by (intro borrow_loop_run [where k = "?n - 1"]) simp_all
    then obtain D where D: "borrow_loop ?x1 1 ?n = Inr (x\<lparr>digits := D\<rparr>)"
      "length D = length ?D"
      "magnitude_of (take ?n D) = magnitude_of (take ?n (?D[0 := ?v])) - 256"
      by auto
    have "uint ?v = uint DIGIT_MAX" by (simp only: v)
    moreover have "uint DIGIT_MAX = 255" by (simp add: DIGIT_MAX_def)
    moreover have "uint (?D ! 0) = 0" using True by simp
    ultimately have "uint ?v - uint (?D ! 0) = 255" by (simp only:)
    with upd D have "magnitude_of (take ?n D) = magnitude_of (take ?n ?D) - 1" by simp
    with D unfold v show ?thesis by (intro exI [of _ D]) simp
  qed
qed


lemma store_store: "store p x2 (store p x1 h) = store p x2 h"
  by (simp add: store_def update_last)

lemma normalize_run:
  assumes "obj_at h x = Some xs" and "digits_off xs = 0" and "length_st xs \<le> length (digits xs)"
  shows "\<exists>n. normalize x h =
           Inr ((), store x (xs\<lparr>length_st := n, negative := negative xs \<and> n \<noteq> 0\<rparr>) h) \<and>
         n \<le> length_st xs \<and>
         magnitude_of (take n (digits xs)) = magnitude_of (take (length_st xs) (digits xs)) \<and>
         (0 < n \<longrightarrow> digits xs ! (n - 1) \<noteq> 0)"
proof -
  obtain n where n: "normalize_loop xs = Inr (xs\<lparr>length_st := n\<rparr>)" "n \<le> length_st xs"
    "magnitude_of (take n (digits xs)) = magnitude_of (take (length_st xs) (digits xs))"
    "0 < n \<longrightarrow> digits xs ! (n - 1) \<noteq> 0"
    using normalize_loop_run [OF assms(2,3)] by auto
  have st: "normalize_st xs = Inr (xs\<lparr>length_st := n, negative := negative xs \<and> n \<noteq> 0\<rparr>)"
    using n(1) by (simp add: normalize_st_def ebind_Inr)
  have "normalize x h = Inr ((), store x (xs\<lparr>length_st := n, negative := negative xs \<and> n \<noteq> 0\<rparr>) h)"
    using assms(1) st by (simp add: normalize_def bnd_def deref_run lift_Inr assign_run)
  with n show ?thesis by (intro exI [of _ n]) simp
qed

lemma resize_grow_bounds:
  "0 < a \<Longrightarrow> orig \<le> a \<Longrightarrow>
   len < resize_grow len orig a \<and> a \<le> resize_grow len orig a \<and>
   resize_grow len orig a \<le> max a (2 * len)"
proof (induction len orig a rule: resize_grow.induct)
  case (1 len orig a)
  show ?case
  proof (cases "len \<ge> a")
    case False
    then show ?thesis by (subst (1 2 3) resize_grow.simps) simp
  next
    case True
    have no: "\<not> a * 2 \<le> orig" using 1(2,3) by simp
    have eq: "resize_grow len orig a = resize_grow len orig (a * 2)"
      using True no by (subst resize_grow.simps) simp
    have "len < resize_grow len orig (a * 2) \<and> a * 2 \<le> resize_grow len orig (a * 2) \<and>
      resize_grow len orig (a * 2) \<le> max (a * 2) (2 * len)"
      using True no 1(2,3) by (intro 1(1)) simp_all
    with eq True show ?thesis by simp
  qed
qed

lemma resize_run:
  assumes "obj_at h p = Some (x :: bigint_st)" and "digits_off x = 0"
    and "allocated x = length (digits x)"
    and "1 \<le> allocated x" and "int (max (allocated x) (2 * len)) \<le> SIZE_MAX"
  shows "\<exists>a. resize p len h =
           Inr ((), store p (x\<lparr>allocated := a,
                                 digits := digits x @ replicate (a - allocated x) 0,
                                 length_st := len\<rparr>) h) \<and>
         allocated x \<le> a \<and> len < a \<and> a \<le> max (allocated x) (2 * len)"
proof -
  let ?orig = "allocated x"
  let ?a = "resize_grow len ?orig ?orig"
  have b: "len < ?a" "?orig \<le> ?a" "?a \<le> max ?orig (2 * len)"
    using resize_grow_bounds [of ?orig ?orig len] assms(4) by simp_all
  let ?x' = "x\<lparr>allocated := ?a, digits := digits x @ replicate (?a - ?orig) 0, length_st := len\<rparr>"
  have "resize p len h = Inr ((), store p ?x' h)"
  proof (cases "?a > ?orig")
    case False
    with b have eq: "?a = ?orig" by simp
    then have "?x' = x\<lparr>allocated := ?a, length_st := len\<rparr>" by simp
    then show ?thesis
      using assms(1) False
      by (simp add: resize_def bnd_def deref_run assign_run Let_def)
  next
    case True
    have sz: "int ?a \<le> SIZE_MAX" using b(3) assms(5) by linarith
    let ?new = "digits x @ map (garbage h) [?orig..<?a]"
    have re: "safe_reallocarray x ?a h = Inr (?new, h)"
      using sz assms(2,3) True by (simp add: safe_reallocarray_def)
    let ?x1 = "x\<lparr>allocated := ?a, digits := ?new\<rparr>"
    have a1: "assign p ?x1 h = Inr ((), store p ?x1 h)" using assms(1) by (rule assign_run)
    have o1: "obj_at (store p ?x1 h) p = Some ?x1" by (simp add: obj_at_store)
    let ?x2 = "x\<lparr>allocated := ?a, digits := digits x @ replicate (?a - ?orig) 0\<rparr>"
    have ms: "memset0 p ?orig (?a - ?orig) (store p ?x1 h) = Inr ((), store p ?x2 h)"
      using o1 assms(2,3) True
      by (simp add: memset0_def bnd_def deref_run assign_run store_store)
    have o2: "obj_at (store p ?x2 h) p = Some ?x2" by (simp add: obj_at_store)
    have sl: "set_length p len (store p ?x2 h) = Inr ((), store p ?x' h)"
      using o2 by (simp add: set_length_def bnd_def deref_run assign_run store_store)
    show ?thesis
      using assms(1) True re a1 ms sl
      by (simp add: resize_def bnd_def deref_run Let_def)
  qed
  with b show ?thesis by (intro exI [of _ ?a]) simp
qed


lemma live_digits_wf: "digits_off x = 0 \<Longrightarrow> live_digits x = take (length_st x) (digits x)"
  by (simp add: live_digits_def)

lemma magnitude_inc_run:
  assumes at: "obj_at h x = Some xs" and wf: "wf_bigint xs"
    and sz: "int (allocated xs) * 4 \<le> SIZE_MAX"
  shows "\<exists>xs'. magnitude_inc x h = Inr (0, store x xs' h) \<and> wf_bigint xs' \<and>
           magnitude_of (live_digits xs') = magnitude_of (live_digits xs) + 1 \<and>
           negative xs' = (negative xs \<and> length_st xs' \<noteq> 0)"
proof -
  let ?D0 = "digits xs"
  let ?len = "length_st xs"
  have off: "digits_off xs = 0" and al: "allocated xs = length ?D0" and a1: "1 \<le> allocated xs"
    and le: "?len \<le> length ?D0"
    using wf by (simp_all add: wf_bigint_def)
  obtain D c' where loop: "inc_loop xs 0 ?len 1 = Inr (xs\<lparr>digits := D\<rparr>, c')"
    and lD: "length D = length ?D0" and c': "uint c' \<le> 1"
    and eq: "magnitude_of (take ?len D) + 256 ^ ?len * uint c' = magnitude_of (take ?len ?D0) + 1"
    using inc_loop_run [of xs ?len 0 1] off le by auto
  let ?x1 = "xs\<lparr>digits := D\<rparr>"
  let ?h1 = "store x ?x1 h"
  have o1: "obj_at ?h1 x = Some ?x1" by (simp add: obj_at_store)
  have start: "magnitude_inc x h =
      (bnd (if c' \<noteq> 0 then
              bnd (resize_sum x ?len 1) (\<lambda>_.
              bnd (deref x) (\<lambda>xs''. wr x (length_st xs'' - 1) c'))
            else ret ()) (\<lambda>_. bnd (normalize x) (\<lambda>_. ret 0))) ?h1"
    using at loop by (simp add: magnitude_inc_def bnd_def deref_run lift_Inr assign_run)
  show ?thesis
  proof (cases "c' = 0")
    case True
    obtain n where n: "normalize x ?h1 =
        Inr ((), store x (?x1\<lparr>length_st := n, negative := negative ?x1 \<and> n \<noteq> 0\<rparr>) ?h1)"
      "n \<le> ?len" "magnitude_of (take n D) = magnitude_of (take ?len D)"
      "0 < n \<longrightarrow> D ! (n - 1) \<noteq> 0"
      using normalize_run [OF o1] off le lD by auto
    let ?xs' = "?x1\<lparr>length_st := n, negative := negative xs \<and> n \<noteq> 0\<rparr>"
    have run: "magnitude_inc x h = Inr (0, store x ?xs' h)"
      using start True n(1) by (simp add: bnd_def ret_def store_store)
    have "wf_bigint ?xs'"
      using off al a1 le lD n by (simp add: wf_bigint_def)
    moreover have "magnitude_of (live_digits ?xs') = magnitude_of (live_digits xs) + 1"
      using off n(3) eq True by (simp add: live_digits_wf)
    ultimately show ?thesis using run by (intro exI [of _ ?xs']) simp
  next
    case False
    then have "uint c' \<noteq> 0" by (simp add: uint_0_iff)
    with c' have c1: "uint c' = 1" using uint_ge_0 [of c'] by linarith
    have "int (max (allocated ?x1) (2 * (?len + 1))) \<le> SIZE_MAX"
      using sz le al a1 by (simp add: max_def)
    then obtain a where rs: "resize x (?len + 1) ?h1 =
        Inr ((), store x (?x1\<lparr>allocated := a,
                                 digits := D @ replicate (a - allocated ?x1) 0,
                                 length_st := ?len + 1\<rparr>) ?h1)"
      and a: "allocated xs \<le> a" "?len + 1 < a"
      using resize_run [OF o1, of "?len + 1"] off al a1 lD by auto
    let ?D2 = "D @ replicate (a - allocated xs) 0"
    let ?x2 = "xs\<lparr>allocated := a, digits := ?D2, length_st := ?len + 1\<rparr>"
    let ?h2 = "store x ?x2 h"
    have l2: "length ?D2 = a" using a al lD by simp
    have ovf: "\<not> int (?len + 1) > SIZE_MAX" using sz le al a1 by simp
    have rsum: "resize_sum x ?len 1 ?h1 = Inr ((), ?h2)"
      using rs ovf by (simp add: resize_sum_def store_store)
    have o2: "obj_at ?h2 x = Some ?x2" by (simp add: obj_at_store)
    let ?D3 = "?D2[?len := c']"
    let ?x3 = "?x2\<lparr>digits := ?D3\<rparr>"
    let ?h3 = "store x ?x3 h"
    have wr3: "wr x ?len c' ?h2 = Inr ((), ?h3)"
      using o2 off a l2
      by (simp add: wr_def bnd_def deref_run lift_Inr set_digit_run assign_run store_store)
    have o3: "obj_at ?h3 x = Some ?x3" by (simp add: obj_at_store)
    obtain n where n: "normalize x ?h3 =
        Inr ((), store x (?x3\<lparr>length_st := n, negative := negative ?x3 \<and> n \<noteq> 0\<rparr>) ?h3)"
      "n \<le> ?len + 1" "magnitude_of (take n ?D3) = magnitude_of (take (?len + 1) ?D3)"
      "0 < n \<longrightarrow> ?D3 ! (n - 1) \<noteq> 0"
      using normalize_run [OF o3] off a l2 by auto
    let ?xs' = "?x3\<lparr>length_st := n, negative := negative xs \<and> n \<noteq> 0\<rparr>"
    have run: "magnitude_inc x h = Inr (0, store x ?xs' h)"
      using start False rsum o2 wr3 n(1)
      by (simp add: bnd_def ret_def deref_run store_store)
    have wf': "wf_bigint ?xs'"
      using off a l2 a1 n by (simp add: wf_bigint_def)
    have "take ?len ?D3 = take ?len D" using le lD by simp
    moreover have "?D3 ! ?len = c'" using a l2 by simp
    moreover have "?len < length ?D3" using a l2 by simp
    ultimately have "magnitude_of (take (Suc ?len) ?D3) = magnitude_of (take ?len D) + 256 ^ ?len * uint c'"
      by (simp add: magnitude_of_take_Suc)
    with n(3) eq have "magnitude_of (take n ?D3) = magnitude_of (take ?len ?D0) + 1" by simp
    then have "magnitude_of (live_digits ?xs') = magnitude_of (live_digits xs) + 1"
      using off by (simp add: live_digits_wf)
    with wf' run show ?thesis by (intro exI [of _ ?xs']) simp
  qed
qed

lemma magnitude_dec_run:
  assumes at: "obj_at h x = Some xs" and wf: "wf_bigint xs" and pos: "0 < length_st xs"
  shows "\<exists>xs'. magnitude_dec x h = Inr (0, store x xs' h) \<and> wf_bigint xs' \<and>
           magnitude_of (live_digits xs') = magnitude_of (live_digits xs) - 1 \<and>
           negative xs' = (negative xs \<and> length_st xs' \<noteq> 0)"
proof -
  let ?D0 = "digits xs"
  let ?len = "length_st xs"
  have off: "digits_off xs = 0" and al: "allocated xs = length ?D0" and a1: "1 \<le> allocated xs"
    and le: "?len \<le> length ?D0" and top: "?D0 ! (?len - 1) \<noteq> 0"
    using wf pos by (simp_all add: wf_bigint_def)
  obtain D where dec: "magnitude_dec_st xs = Inr (xs\<lparr>digits := D\<rparr>)"
    and lD: "length D = length ?D0"
    and eq: "magnitude_of (take ?len D) = magnitude_of (take ?len ?D0) - 1"
    using magnitude_dec_st_run [OF off le pos top] by auto
  let ?x1 = "xs\<lparr>digits := D\<rparr>"
  let ?h1 = "store x ?x1 h"
  have o1: "obj_at ?h1 x = Some ?x1" by (simp add: obj_at_store)
  obtain n where n: "normalize x ?h1 =
      Inr ((), store x (?x1\<lparr>length_st := n, negative := negative ?x1 \<and> n \<noteq> 0\<rparr>) ?h1)"
    "n \<le> ?len" "magnitude_of (take n D) = magnitude_of (take ?len D)"
    "0 < n \<longrightarrow> D ! (n - 1) \<noteq> 0"
    using normalize_run [OF o1] off le lD by auto
  let ?xs' = "?x1\<lparr>length_st := n, negative := negative xs \<and> n \<noteq> 0\<rparr>"
  have run: "magnitude_dec x h = Inr (0, store x ?xs' h)"
    using at dec n(1)
    by (simp add: magnitude_dec_def bnd_def deref_run lift_Inr assign_run ret_def store_store)
  have "wf_bigint ?xs'"
    using off al a1 le lD n by (simp add: wf_bigint_def)
  moreover have "magnitude_of (live_digits ?xs') = magnitude_of (live_digits xs) - 1"
    using off n(3) eq by (simp add: live_digits_wf)
  ultimately show ?thesis using run by (intro exI [of _ ?xs']) simp
qed


lemma bigint_value_zero_length: "length_st x = 0 \<Longrightarrow> magnitude_of (live_digits x) = 0"
  by (simp add: live_digits_def)

section \<open>Increment and decrement are exact\<close>

text \<open>
  C10. Let \<open>x\<close> point to a valid structure \<open>xs\<close>, small enough for its array to be
  doubled. Then \<open>bigint_inc(x)\<close> returns 0 and leaves at \<open>x\<close> a valid structure whose value
  is that of \<open>xs\<close> plus one, and \<open>bigint_dec(x)\<close> returns 0 and leaves one whose value is
  that of \<open>xs\<close> minus one; nothing else in the store changes. The result being valid, its
  sign flag agrees with its value, also across zero: 0 becomes -1 and -1 becomes 0.
\<close>

theorem bigint_inc_dec_value:
  assumes at: "obj_at h x = Some xs" and wf: "wf_bigint xs"
    and sz: "int (allocated xs) * 4 \<le> SIZE_MAX"
  shows "(\<exists>xs'. bigint_inc x h = Inr (0, store x xs' h) \<and> wf_bigint xs' \<and>
            bigint_value xs' = bigint_value xs + 1) \<and>
         (\<exists>xs'. bigint_dec x h = Inr (0, store x xs' h) \<and> wf_bigint xs' \<and>
            bigint_value xs' = bigint_value xs - 1)"
proof
  have nn: "0 \<le> magnitude_of (live_digits xs)" by (rule magnitude_of_nonneg)
  show "\<exists>xs'. bigint_inc x h = Inr (0, store x xs' h) \<and> wf_bigint xs' \<and>
            bigint_value xs' = bigint_value xs + 1"
  proof (cases "negative xs")
    case True
    with wf have pos: "0 < length_st xs" by (auto simp add: wf_bigint_def)
    obtain xs' where r: "magnitude_dec x h = Inr (0, store x xs' h)" "wf_bigint xs'"
      "magnitude_of (live_digits xs') = magnitude_of (live_digits xs) - 1"
      "negative xs' = (negative xs \<and> length_st xs' \<noteq> 0)"
      using magnitude_dec_run [OF at wf pos] by blast
    have run: "bigint_inc x h = Inr (0, store x xs' h)"
      using at True r(1) by (simp add: bigint_inc_def bigint_ltz_def bnd_def deref_run ret_def)
    have "bigint_value xs' = bigint_value xs + 1"
      using True r(3,4) bigint_value_zero_length [of xs']
      by (cases "length_st xs' = 0") (simp_all add: bigint_value_def)
    with run r(2) show ?thesis by blast
  next
    case False
    obtain xs' where r: "magnitude_inc x h = Inr (0, store x xs' h)" "wf_bigint xs'"
      "magnitude_of (live_digits xs') = magnitude_of (live_digits xs) + 1"
      "negative xs' = (negative xs \<and> length_st xs' \<noteq> 0)"
      using magnitude_inc_run [OF at wf sz] by blast
    have run: "bigint_inc x h = Inr (0, store x xs' h)"
      using at False r(1) by (simp add: bigint_inc_def bigint_ltz_def bnd_def deref_run ret_def)
    have "bigint_value xs' = bigint_value xs + 1"
      using False r(3,4) by (simp add: bigint_value_def)
    with run r(2) show ?thesis by blast
  qed
  show "\<exists>xs'. bigint_dec x h = Inr (0, store x xs' h) \<and> wf_bigint xs' \<and>
            bigint_value xs' = bigint_value xs - 1"
  proof (cases "length_st xs = 0")
    case True
    have off: "digits_off xs = 0" and al: "allocated xs = length (digits xs)"
      and a1: "1 \<le> allocated xs"
      using wf by (simp_all add: wf_bigint_def)
    let ?xs' = "xs\<lparr>length_st := 1, digits := (digits xs)[0 := 1], negative := True\<rparr>"
    have ne: "0 < length (digits xs)" using al a1 by (cases "digits xs") simp_all
    have run: "bigint_dec x h = Inr (0, store x ?xs' h)"
      using at True off ne
      by (simp add: bigint_dec_def bigint_eqz_def set_length_def wr_def set_negative_def
          bnd_def deref_run ret_def assign_run lift_Inr set_digit_def obj_at_store store_store)
    have w: "wf_bigint ?xs'"
      using off al a1 by (cases "digits xs") (simp_all add: wf_bigint_def)
    have "take (Suc 0) ((digits xs)[0 := 1]) = [1]"
      using al a1 by (cases "digits xs") simp_all
    then have "bigint_value ?xs' = bigint_value xs - 1"
      using True off bigint_value_zero_length [of xs]
      by (simp add: bigint_value_def live_digits_def)
    with run w show ?thesis by blast
  next
    case nz: False
    show ?thesis
    proof (cases "negative xs")
      case True
      obtain xs' where r: "magnitude_inc x h = Inr (0, store x xs' h)" "wf_bigint xs'"
        "magnitude_of (live_digits xs') = magnitude_of (live_digits xs) + 1"
        "negative xs' = (negative xs \<and> length_st xs' \<noteq> 0)"
        using magnitude_inc_run [OF at wf sz] by blast
      have run: "bigint_dec x h = Inr (0, store x xs' h)"
        using at nz True r(1)
        by (simp add: bigint_dec_def bigint_eqz_def bigint_ltz_def bnd_def deref_run ret_def)
      have "length_st xs' \<noteq> 0"
        using r(3) nn bigint_value_zero_length [of xs'] by auto
      then have "bigint_value xs' = bigint_value xs - 1"
        using True r(3,4) by (simp add: bigint_value_def)
      with run r(2) show ?thesis by blast
    next
      case False
      from nz have pos: "0 < length_st xs" by simp
      obtain xs' where r: "magnitude_dec x h = Inr (0, store x xs' h)" "wf_bigint xs'"
        "magnitude_of (live_digits xs') = magnitude_of (live_digits xs) - 1"
        "negative xs' = (negative xs \<and> length_st xs' \<noteq> 0)"
        using magnitude_dec_run [OF at wf pos] by blast
      have run: "bigint_dec x h = Inr (0, store x xs' h)"
        using at nz False r(1)
        by (simp add: bigint_dec_def bigint_eqz_def bigint_ltz_def bnd_def deref_run ret_def)
      have "bigint_value xs' = bigint_value xs - 1"
        using False r(3,4) by (simp add: bigint_value_def)
      with run r(2) show ?thesis by blast
    qed
  qed
qed

text \<open>
  The structure holding -1 in a store of its own: incremented it holds 0, decremented -2.
\<close>

theorem bigint_inc_dec_value_at_minus_one:
  "(\<exists>xs'. bigint_inc 1
       \<lparr>objs = [(1, \<lparr>digits = [1, 0], digits_off = 0, allocated = 2, length_st = 1,
                     negative = True\<rparr>)],
        brk = 2, garbage = (\<lambda>_. 0), small_number_cache = [], init_done = False\<rparr>
       = Inr (0, store 1 xs'
       \<lparr>objs = [(1, \<lparr>digits = [1, 0], digits_off = 0, allocated = 2, length_st = 1,
                     negative = True\<rparr>)],
        brk = 2, garbage = (\<lambda>_. 0), small_number_cache = [], init_done = False\<rparr>)
       \<and> wf_bigint xs' \<and> bigint_value xs' = 0) \<and>
   (\<exists>xs'. bigint_dec 1
       \<lparr>objs = [(1, \<lparr>digits = [1, 0], digits_off = 0, allocated = 2, length_st = 1,
                     negative = True\<rparr>)],
        brk = 2, garbage = (\<lambda>_. 0), small_number_cache = [], init_done = False\<rparr>
       = Inr (0, store 1 xs'
       \<lparr>objs = [(1, \<lparr>digits = [1, 0], digits_off = 0, allocated = 2, length_st = 1,
                     negative = True\<rparr>)],
        brk = 2, garbage = (\<lambda>_. 0), small_number_cache = [], init_done = False\<rparr>)
       \<and> wf_bigint xs' \<and> bigint_value xs' = - 2)"
  using bigint_inc_dec_value [of
       "\<lparr>objs = [(1, \<lparr>digits = [1, 0], digits_off = 0, allocated = 2, length_st = 1,
                     negative = True\<rparr>)],
        brk = 2, garbage = (\<lambda>_. 0), small_number_cache = [], init_done = False\<rparr>"
       1
       "\<lparr>digits = [1, 0], digits_off = 0, allocated = 2, length_st = 1, negative = True\<rparr>"]
  by (simp add: obj_at_def wf_bigint_def SIZE_MAX_def bigint_value_def live_digits_def)

section \<open>The sum of two magnitudes of 8-bit digits\<close>

lemma carry_one:
  fixes x :: int
  assumes "0 \<le> x" "x < 256"
  shows "(x + of_bool c) mod 256 + 256 * of_bool ((x + of_bool c) mod 256 < x) = x + of_bool c"
proof (cases "x + of_bool c < 256")
  case True
  then have "(x + of_bool c) mod 256 = x + of_bool c" using assms by (cases c) simp_all
  then show ?thesis by (cases c) simp_all
next
  case False
  then have x: "x = 255" "c" using assms by (cases c; simp)+
  then show ?thesis by simp
qed

lemma carry_two:
  fixes x y :: int
  assumes "0 \<le> x" "x < 256" "0 \<le> y" "y < 256"
  shows "(x + y + of_bool c) mod 256 +
         256 * of_bool ((x + y + of_bool c) mod 256 - of_bool c < x) = x + y + of_bool c"
proof (cases "x + y + of_bool c < 256")
  case True
  then have "(x + y + of_bool c) mod 256 = x + y + of_bool c" using assms by (cases c) simp_all
  then show ?thesis using assms by (cases c) simp_all
next
  case False
  define t where "t = x + y + of_bool c"
  have t: "256 \<le> t" "t < 512" using False assms by (cases c; simp add: t_def)+
  have "(t - 256) mod 256 = t - 256" using t by (intro mod_pos_pos_trivial) simp_all
  moreover have "(t - 256) mod 256 = t mod 256" by simp
  ultimately have "t mod 256 = t - 256" by simp
  moreover have "t - 256 - of_bool c < x" using assms by (simp add: t_def)
  ultimately have "t mod 256 + 256 * of_bool (t mod 256 - of_bool c < x) = t" by simp
  then show ?thesis by (simp only: t_def)
qed

lemma rd_run:
  "obj_at h p = Some x \<Longrightarrow> digits_off x = 0 \<Longrightarrow> i < length (digits x) \<Longrightarrow>
   rd p i h = Inr (digits x ! i, h)"
  by (simp add: rd_def bnd_def deref_run get_digit_run lift_Inr)

lemma wr_run:
  "obj_at h p = Some x \<Longrightarrow> digits_off x = 0 \<Longrightarrow> i < length (digits x) \<Longrightarrow>
   wr p i v h = Inr ((), store p (x\<lparr>digits := (digits x)[i := v]\<rparr>) h)"
  by (simp add: wr_def bnd_def deref_run set_digit_run lift_Inr assign_run)

lemma sum_step_run:
  assumes d: "obj_at h dest = Some d" "digits_off d = 0" "offset < length (digits d)"
    and a: "obj_at h a = Some xa" "digits_off xa = 0" "la \<le> length (digits xa)"
    and b: "obj_at h b = Some xb" "digits_off xb = 0" "lb \<le> length (digits xb)"
    and lt: "offset < la \<or> offset < lb"
  shows "\<exists>s c'. sum_step dest a b la lb offset c h =
           Inr (c', store dest (d\<lparr>digits := (digits d)[offset := s]\<rparr>) h) \<and>
         uint s + 256 * of_bool c' =
           column (digits xa) la offset + column (digits xb) lb offset + of_bool c"
proof -
  consider (A) "offset \<ge> la" "offset < lb" | (B) "offset < la" "offset \<ge> lb"
    | (C) "offset < la" "offset < lb"
    using lt by linarith
  then show ?thesis
  proof cases
    case A
    let ?bd = "digits xb ! offset"
    let ?s = "word_of_int (uint ?bd + of_bool c) :: digit_tt"
    have s: "uint ?s = (uint ?bd + of_bool c) mod 256" by (simp only: uint_digit_store)
    have "sum_step dest a b la lb offset c h =
        Inr (uint ?s < uint ?bd, store dest (d\<lparr>digits := (digits d)[offset := ?s]\<rparr>) h)"
      using A d b
      by (simp add: sum_step_def bnd_def rd_run wr_run ret_def Let_def del: of_bool_eq_iff)
    moreover have "uint ?s + 256 * of_bool (uint ?s < uint ?bd) =
        column (digits xa) la offset + column (digits xb) lb offset + of_bool c"
      using A carry_one [of "uint ?bd" c] uint_digit_lt [of ?bd]
      by (simp only: s column_def) simp
    ultimately show ?thesis by blast
  next
    case B
    let ?ad = "digits xa ! offset"
    let ?s = "word_of_int (uint ?ad + of_bool c) :: digit_tt"
    have s: "uint ?s = (uint ?ad + of_bool c) mod 256" by (simp only: uint_digit_store)
    have "sum_step dest a b la lb offset c h =
        Inr (uint ?s < uint ?ad, store dest (d\<lparr>digits := (digits d)[offset := ?s]\<rparr>) h)"
      using B d a
      by (simp add: sum_step_def bnd_def rd_run wr_run ret_def Let_def)
    moreover have "uint ?s + 256 * of_bool (uint ?s < uint ?ad) =
        column (digits xa) la offset + column (digits xb) lb offset + of_bool c"
      using B carry_one [of "uint ?ad" c] uint_digit_lt [of ?ad]
      by (simp only: s column_def) simp
    ultimately show ?thesis by blast
  next
    case C
    let ?ad = "digits xa ! offset"
    let ?bd = "digits xb ! offset"
    let ?s = "word_of_int (uint ?ad + uint ?bd + of_bool c) :: digit_tt"
    have s: "uint ?s = (uint ?ad + uint ?bd + of_bool c) mod 256" by (simp only: uint_digit_store)
    have "sum_step dest a b la lb offset c h =
        Inr (uint ?s - of_bool c < uint ?ad,
             store dest (d\<lparr>digits := (digits d)[offset := ?s]\<rparr>) h)"
      using C d a b
      by (simp add: sum_step_def sum_minus_carry_def bnd_def rd_run wr_run ret_def Let_def)
    moreover have "uint ?s + 256 * of_bool (uint ?s - of_bool c < uint ?ad) =
        column (digits xa) la offset + column (digits xb) lb offset + of_bool c"
      using C carry_two [of "uint ?ad" "uint ?bd" c] uint_digit_lt [of ?ad] uint_digit_lt [of ?bd]
      by (simp only: s column_def) simp
    ultimately show ?thesis by blast
  qed
qed


lemma store_same: "obj_at h p = Some x \<Longrightarrow> store p x h = h"
  by (simp add: obj_at_def store_def update_triv)

lemma column_tail:
  "len \<le> length ds \<Longrightarrow>
   magnitude_of (drop off (take len ds)) =
     column ds len off + 256 * magnitude_of (drop (Suc off) (take len ds))"
proof (cases "off < len")
  case True
  assume "len \<le> length ds"
  with True have "drop off (take len ds) = ds ! off # drop (Suc off) (take len ds)"
    by (simp add: Cons_nth_drop_Suc [symmetric])
  with True show ?thesis by (simp add: column_def)
next
  case False
  then show ?thesis by (simp add: column_def)
qed

lemma tail_update:
  "drop (Suc off) (take len (ds[off := v])) = drop (Suc off) (take len ds)"
  by (simp add: take_update_swap)

lemma sum_loop_run:
  assumes "obj_at h dest = Some d" "digits_off d = 0" "mx \<le> length (digits d)"
    and "obj_at h a = Some xa" "digits_off xa = 0" "la \<le> length (digits xa)"
    and "obj_at h b = Some xb" "digits_off xb = 0" "lb \<le> length (digits xb)"
    and "la \<le> mx \<and> lb \<le> mx \<and> (mx = la \<or> mx = lb)" "offset \<le> mx"
  shows "\<exists>D c'. sum_loop dest a b la lb mx offset c h =
             Inr (c', store dest (d\<lparr>digits := D\<rparr>) h) \<and>
           length D = length (digits d) \<and>
           magnitude_of (drop offset (take mx D)) + 256 ^ (mx - offset) * of_bool c' =
             magnitude_of (drop offset (take la (digits xa))) +
             magnitude_of (drop offset (take lb (digits xb))) + of_bool c \<and>
           take offset D = take offset (digits d)"
  using assms
proof (induction "mx - offset" arbitrary: offset h d xa xb c)
  case 0
  from 0(1) 0(12) have "offset = mx" by linarith
  moreover have "store dest (d\<lparr>digits := digits d\<rparr>) h = h"
    using 0(2) by (simp add: store_same)
  moreover have "drop mx (take la (digits xa)) = []" "drop mx (take lb (digits xb)) = []"
    using 0(11) by (simp_all add: min_def)
  ultimately show ?case
    by (intro exI [of _ "digits d"] exI [of _ c]) (simp add: sum_loop.simps ret_def)
next
  case (Suc k)
  from Suc.hyps(2) have lt: "offset < mx" by linarith
  then have lt': "offset < la \<or> offset < lb" using Suc.prems(10) by auto
  have ol: "offset < length (digits d)" using lt Suc.prems(3) by simp
  obtain s c1 where step: "sum_step dest a b la lb offset c h =
        Inr (c1, store dest (d\<lparr>digits := (digits d)[offset := s]\<rparr>) h)"
    and col: "uint s + 256 * of_bool c1 =
        column (digits xa) la offset + column (digits xb) lb offset + of_bool c"
    using sum_step_run [OF Suc.prems(1,2) ol Suc.prems(4,5,6) Suc.prems(7,8,9) lt', of c]
    by blast
  let ?d1 = "d\<lparr>digits := (digits d)[offset := s]\<rparr>"
  let ?h1 = "store dest ?d1 h"
  let ?xa1 = "if a = dest then ?d1 else xa"
  let ?xb1 = "if b = dest then ?d1 else xb"
  have xa: "a = dest \<Longrightarrow> xa = d" using Suc.prems(1,4) by simp
  have xb: "b = dest \<Longrightarrow> xb = d" using Suc.prems(1,7) by simp
  have p1: "obj_at ?h1 dest = Some ?d1" by (simp add: obj_at_store)
  have p2: "digits_off ?d1 = 0" using Suc.prems(2) by simp
  have p3: "mx \<le> length (digits ?d1)" using Suc.prems(3) by simp
  have p4: "obj_at ?h1 a = Some ?xa1" using Suc.prems(4) by (simp add: obj_at_store)
  have p5: "digits_off ?xa1 = 0" using Suc.prems(2,5) by simp
  have p6: "la \<le> length (digits ?xa1)" using Suc.prems(6) xa by auto
  have p7: "obj_at ?h1 b = Some ?xb1" using Suc.prems(7) by (simp add: obj_at_store)
  have p8: "digits_off ?xb1 = 0" using Suc.prems(2,8) by simp
  have p9: "lb \<le> length (digits ?xb1)" using Suc.prems(9) xb by auto
  have k: "k = mx - Suc offset" using Suc.hyps(2) by linarith
  have p11: "Suc offset \<le> mx" using lt by simp
  obtain D c' where run: "sum_loop dest a b la lb mx (Suc offset) c1 ?h1 =
        Inr (c', store dest (?d1\<lparr>digits := D\<rparr>) ?h1)"
    and lD: "length D = length (digits ?d1)"
    and rel: "magnitude_of (drop (Suc offset) (take mx D)) + 256 ^ (mx - Suc offset) * of_bool c' =
        magnitude_of (drop (Suc offset) (take la (digits ?xa1))) +
        magnitude_of (drop (Suc offset) (take lb (digits ?xb1))) + of_bool c1"
    and tk: "take (Suc offset) D = take (Suc offset) (digits ?d1)"
    using Suc.hyps(1) [OF k p1 p2 p3 p4 p5 p6 p7 p8 p9 Suc.prems(10) p11, of c1] by blast
  have ta: "drop (Suc offset) (take la (digits ?xa1)) = drop (Suc offset) (take la (digits xa))"
    using xa by (auto simp add: tail_update)
  have tb: "drop (Suc offset) (take lb (digits ?xb1)) = drop (Suc offset) (take lb (digits xb))"
    using xb by (auto simp add: tail_update)
  have lD': "length D = length (digits d)" using lD by simp
  have "take (Suc offset) D ! offset = take (Suc offset) (digits ?d1) ! offset"
    by (simp only: tk)
  then have Ds: "D ! offset = s" using ol by simp
  have "take offset (take (Suc offset) D) = take offset (take (Suc offset) (digits ?d1))"
    by (simp only: tk)
  then have tk': "take offset D = take offset (digits d)" by (simp add: min_def)
  have full: "sum_loop dest a b la lb mx offset c h = Inr (c', store dest (d\<lparr>digits := D\<rparr>) h)"
    using lt step run by (subst sum_loop.simps) (simp add: bnd_def store_store)
  have "mx - offset = Suc (mx - Suc offset)" using lt by linarith
  then have pw: "(256 :: int) ^ (mx - offset) = 256 * 256 ^ (mx - Suc offset)"
    by (simp only: power_Suc)
  have cD: "column D mx offset = uint s" using lt Ds by (simp add: column_def)
  have "magnitude_of (drop offset (take mx D)) + 256 ^ (mx - offset) * of_bool c' =
      uint s + 256 * (magnitude_of (drop (Suc offset) (take mx D)) +
                      256 ^ (mx - Suc offset) * of_bool c')"
    using column_tail [of mx D offset] Suc.prems(3) lD' cD by (simp only: pw) (simp add: algebra_simps)
  also have "\<dots> = uint s + 256 * of_bool c1 +
      256 * magnitude_of (drop (Suc offset) (take la (digits xa))) +
      256 * magnitude_of (drop (Suc offset) (take lb (digits xb)))"
    by (simp only: rel ta tb) (simp add: algebra_simps)
  also have "\<dots> = magnitude_of (drop offset (take la (digits xa))) +
      magnitude_of (drop offset (take lb (digits xb))) + of_bool c"
    using column_tail [of la "digits xa" offset] column_tail [of lb "digits xb" offset]
      Suc.prems(6,9) col by simp
  finally show ?case using full lD' tk' by blast
qed


lemma wf_magnitude_upper:
  "wf_bigint x \<Longrightarrow> magnitude_of (live_digits x) < 256 ^ length_st x"
  using magnitude_of_bound [of "take (length_st x) (digits x)"]
  by (auto simp add: wf_bigint_def live_digits_def min_def split: if_splits)

lemma wf_magnitude_lower:
  assumes "wf_bigint x" "0 < length_st x"
  shows "256 ^ (length_st x - 1) \<le> magnitude_of (live_digits x)"
proof -
  let ?n = "length_st x - 1"
  have n: "?n < length (digits x)" "Suc ?n = length_st x" "digits x ! ?n \<noteq> 0"
    "digits_off x = 0"
    using assms by (auto simp add: wf_bigint_def)
  have e: "magnitude_of (take (Suc ?n) (digits x)) =
      magnitude_of (take ?n (digits x)) + 256 ^ ?n * uint (digits x ! ?n)"
    using n(1) by (rule magnitude_of_take_Suc)
  have z: "0 \<le> magnitude_of (take ?n (digits x))" by (rule magnitude_of_nonneg)
  have "uint (digits x ! ?n) \<noteq> 0" using n(3) by (simp add: uint_0_iff)
  then have "1 \<le> uint (digits x ! ?n)" using uint_ge_0 [of "digits x ! ?n"] by linarith
  then have "(256 :: int) ^ ?n * 1 \<le> 256 ^ ?n * uint (digits x ! ?n)"
    by (intro mult_left_mono) simp_all
  with e z have "256 ^ ?n \<le> magnitude_of (take (Suc ?n) (digits x))" by linarith
  then show ?thesis using n(2,4) by (simp only: live_digits_wf)
qed

lemma bigint_movui_zero_run:
  "obj_at h dest = Some d \<Longrightarrow>
   bigint_movui dest 0 h = Inr ((), store dest (d\<lparr>negative := False, length_st := 0\<rparr>) h)"
  by (simp add: bigint_movui_def set_negative_def bnd_def deref_run assign_run obj_at_store
      movui_st_def lift_Inr store_store)

lemma magnitude_sum_run:
  assumes d: "obj_at h dest = Some ds" and a: "obj_at h a = Some xa" and b: "obj_at h b = Some xb"
    and wd: "wf_bigint ds" and wa: "wf_bigint xa" and wb: "wf_bigint xb"
    and sz: "int (allocated ds) \<le> SIZE_MAX"
      "2 * (int (max (length_st xa) (length_st xb)) + 1) \<le> SIZE_MAX"
  shows "\<exists>ds'. magnitude_sum dest a b h = Inr (dest, store dest ds' h) \<and> wf_bigint ds' \<and>
           magnitude_of (live_digits ds') =
             magnitude_of (live_digits xa) + magnitude_of (live_digits xb)"
proof -
  let ?la = "length_st xa"
  let ?lb = "length_st xb"
  define M where "M = max ?la ?lb"
  have szM: "2 * (int M + 1) \<le> SIZE_MAX" using sz(2) by (simp only: M_def)
  have doff: "digits_off ds = 0" and dal: "allocated ds = length (digits ds)"
    and d1: "1 \<le> allocated ds"
    using wd by (simp_all add: wf_bigint_def)
  have aoff: "digits_off xa = 0" and ale: "?la \<le> length (digits xa)"
    using wa by (simp_all add: wf_bigint_def)
  have boff: "digits_off xb = 0" and ble: "?lb \<le> length (digits xb)"
    using wb by (simp_all add: wf_bigint_def)
  have mx: "(if ?lb < ?la then ?la else ?lb) = M" by (simp add: max_def M_def)
  show ?thesis
  proof (cases "?la = 0 \<and> ?lb = 0")
    case True
    let ?d1 = "ds\<lparr>negative := False, length_st := 0\<rparr>"
    let ?h1 = "store dest ?d1 h"
    have o1: "obj_at ?h1 dest = Some ?d1" by (simp add: obj_at_store)
    obtain n where n: "normalize dest ?h1 =
        Inr ((), store dest (?d1\<lparr>length_st := n, negative := negative ?d1 \<and> n \<noteq> 0\<rparr>) ?h1)"
      "n \<le> length_st ?d1"
      using normalize_run [OF o1] doff by auto
    let ?ds' = "?d1\<lparr>length_st := n, negative := negative ?d1 \<and> n \<noteq> 0\<rparr>"
    have n0: "n = 0" using n(2) by simp
    have run: "magnitude_sum dest a b h = Inr (dest, store dest ?ds' h)"
      using a b True d n(1)
      by (simp add: magnitude_sum_def bnd_def deref_run bigint_movui_zero_run ret_def store_store)
    have "wf_bigint ?ds'" using doff dal d1 n0 by (simp add: wf_bigint_def)
    moreover have "magnitude_of (live_digits ?ds') =
        magnitude_of (live_digits xa) + magnitude_of (live_digits xb)"
      using True n0 by (simp add: live_digits_def)
    ultimately show ?thesis using run by blast
  next
    case False
    then have nz: "(?la = 0 \<and> ?lb = 0) = False" by simp
    have s1: "int (max (allocated ds) (2 * M)) \<le> SIZE_MAX"
      using sz(1) szM by (simp add: max_def)
    obtain a1 where rs: "resize dest M h =
        Inr ((), store dest (ds\<lparr>allocated := a1,
                                   digits := digits ds @ replicate (a1 - allocated ds) 0,
                                   length_st := M\<rparr>) h)"
      and a1: "allocated ds \<le> a1" "M < a1" "a1 \<le> max (allocated ds) (2 * M)"
      using resize_run [OF d doff dal d1 s1] by auto
    let ?d1 = "ds\<lparr>allocated := a1, digits := digits ds @ replicate (a1 - allocated ds) 0,
                  length_st := M\<rparr>"
    let ?h1 = "store dest ?d1 h"
    let ?xa1 = "if a = dest then ?d1 else xa"
    let ?xb1 = "if b = dest then ?d1 else xb"
    have xa: "a = dest \<Longrightarrow> xa = ds" using d a by simp
    have xb: "b = dest \<Longrightarrow> xb = ds" using d b by simp
    have l1: "length (digits ?d1) = a1" using a1(1) dal by simp
    have p1: "obj_at ?h1 dest = Some ?d1" by (simp add: obj_at_store)
    have p2: "digits_off ?d1 = 0" using doff by simp
    have p3: "M \<le> length (digits ?d1)" using a1(2) l1 by linarith
    have p4: "obj_at ?h1 a = Some ?xa1" using a by (simp add: obj_at_store)
    have p5: "digits_off ?xa1 = 0" using doff aoff by simp
    have p6: "?la \<le> length (digits ?xa1)" using ale xa by auto
    have p7: "obj_at ?h1 b = Some ?xb1" using b by (simp add: obj_at_store)
    have p8: "digits_off ?xb1 = 0" using doff boff by simp
    have p9: "?lb \<le> length (digits ?xb1)" using ble xb by auto
    have p10: "?la \<le> M \<and> ?lb \<le> M \<and> (M = ?la \<or> M = ?lb)"
      by (simp add: max_def M_def)
    have p11: "0 \<le> M" by simp
    obtain D c' where loop: "sum_loop dest a b ?la ?lb M 0 False ?h1 =
          Inr (c', store dest (?d1\<lparr>digits := D\<rparr>) ?h1)"
      and lD: "length D = length (digits ?d1)"
      and rel: "magnitude_of (drop 0 (take M D)) + 256 ^ (M - 0) * of_bool c' =
          magnitude_of (drop 0 (take ?la (digits ?xa1))) +
          magnitude_of (drop 0 (take ?lb (digits ?xb1))) + of_bool False"
      using sum_loop_run [OF p1 p2 p3 p4 p5 p6 p7 p8 p9 p10 p11, of False] by blast
    have ta: "take ?la (digits ?xa1) = take ?la (digits xa)" using xa ale by auto
    have tb: "take ?lb (digits ?xb1) = take ?lb (digits xb)" using xb ble by auto
    have rel': "magnitude_of (take M D) + 256 ^ M * of_bool c' =
        magnitude_of (live_digits xa) + magnitude_of (live_digits xb)"
      using rel aoff boff by (simp only: ta tb live_digits_wf) simp
    let ?d2 = "?d1\<lparr>digits := D\<rparr>"
    let ?h2 = "store dest ?d2 h"
    have lD': "length D = a1" using lD l1 by simp
    have o2: "obj_at ?h2 dest = Some ?d2" by (simp add: obj_at_store)
    have start: "magnitude_sum dest a b h =
        (bnd (if c' then
                bnd (deref dest) (\<lambda>ds.
                bnd (resize_sum dest (length_st ds) 1) (\<lambda>_.
                wr dest M 1))
              else ret ()) (\<lambda>_. bnd (normalize dest) (\<lambda>_. ret dest))) ?h2"
      using a b rs loop
      by (simp add: magnitude_sum_def bnd_def deref_run Let_def mx nz store_store)
    show ?thesis
    proof (cases c')
      case nc: False
      obtain n where n: "normalize dest ?h2 =
          Inr ((), store dest (?d2\<lparr>length_st := n, negative := negative ?d2 \<and> n \<noteq> 0\<rparr>) ?h2)"
        "n \<le> M" "magnitude_of (take n D) = magnitude_of (take M D)"
        "0 < n \<longrightarrow> D ! (n - 1) \<noteq> 0"
        using normalize_run [OF o2] doff a1(2) lD' by auto
      let ?ds' = "?d2\<lparr>length_st := n, negative := negative ?d2 \<and> n \<noteq> 0\<rparr>"
      have run: "magnitude_sum dest a b h = Inr (dest, store dest ?ds' h)"
        using start nc n(1) by (simp add: bnd_def ret_def store_store)
      have "n \<le> a1" "1 \<le> a1" using n(2) a1(1,2) d1 by linarith+
      then have "wf_bigint ?ds'"
        using doff lD' n(4) by (simp add: wf_bigint_def)
      moreover have "magnitude_of (live_digits ?ds') =
          magnitude_of (live_digits xa) + magnitude_of (live_digits xb)"
        using doff n(3) rel' nc by (simp add: live_digits_wf)
      ultimately show ?thesis using run by blast
    next
      case c: True
      have "a1 \<le> allocated ds \<or> a1 \<le> 2 * M" using a1(3) by (simp only: le_max_iff_disj)
      then have "int a1 \<le> SIZE_MAX" using sz(1) szM by (elim disjE) arith+
      moreover have "int (2 * (M + 1)) \<le> SIZE_MAX" using szM by arith
      ultimately have s2: "int (max (allocated ?d2) (2 * (M + 1))) \<le> SIZE_MAX"
        by (simp add: max_def)
      obtain a2 where rs2: "resize dest (M + 1) ?h2 =
          Inr ((), store dest (?d2\<lparr>allocated := a2,
                                     digits := digits ?d2 @ replicate (a2 - allocated ?d2) 0,
                                     length_st := M + 1\<rparr>) ?h2)"
        and a2: "allocated ?d2 \<le> a2" "M + 1 < a2"
        using resize_run [OF o2, of "M + 1"] doff lD' d1 a1(1) s2 by auto
      let ?D3 = "D @ replicate (a2 - a1) 0"
      let ?d3 = "?d2\<lparr>allocated := a2, digits := digits ?d2 @ replicate (a2 - allocated ?d2) 0,
                    length_st := M + 1\<rparr>"
      let ?h3 = "store dest ?d3 h"
      have l3: "length ?D3 = a2" using a2(1) lD' by simp
      have ovf: "\<not> int (M + 1) > SIZE_MAX" using szM by arith
      have rsum: "resize_sum dest M 1 ?h2 = Inr ((), ?h3)"
        using rs2 ovf by (simp add: resize_sum_def store_store)
      have o3: "obj_at ?h3 dest = Some ?d3" by (simp add: obj_at_store)
      let ?D4 = "?D3[M := 1]"
      let ?d4 = "?d3\<lparr>digits := (digits ?d3)[M := 1]\<rparr>"
      let ?h4 = "store dest ?d4 h"
      have wr4: "wr dest M 1 ?h3 = Inr ((), ?h4)"
        using wr_run [OF o3, of M 1] doff a2(2) l3 by (simp add: store_store)
      have o4: "obj_at ?h4 dest = Some ?d4" by (simp add: obj_at_store)
      obtain n where n: "normalize dest ?h4 =
          Inr ((), store dest (?d4\<lparr>length_st := n, negative := negative ?d4 \<and> n \<noteq> 0\<rparr>) ?h4)"
        "n \<le> M + 1" "magnitude_of (take n ?D4) = magnitude_of (take (M + 1) ?D4)"
        "0 < n \<longrightarrow> ?D4 ! (n - 1) \<noteq> 0"
        using normalize_run [OF o4] doff a2(2) l3 by auto
      let ?ds' = "?d4\<lparr>length_st := n, negative := negative ?d4 \<and> n \<noteq> 0\<rparr>"
      have run: "magnitude_sum dest a b h = Inr (dest, store dest ?ds' h)"
        using start c o2 rsum wr4 n(1)
        by (simp add: bnd_def ret_def deref_run store_store)
      have "n \<le> a2" "1 \<le> a2" using n(2) a2(2) by linarith+
      then have wf': "wf_bigint ?ds'"
        using doff l3 lD' n(4) by (simp add: wf_bigint_def)
      have "take M ?D4 = take M D" using a1(2) lD' by simp
      moreover have "?D4 ! M = 1" using a2(2) l3 by simp
      moreover have "M < length ?D4" using a2(2) l3 by simp
      ultimately have "magnitude_of (take (Suc M) ?D4) = magnitude_of (take M D) + 256 ^ M * 1"
        by (simp add: magnitude_of_take_Suc)
      with n(3) rel' c have "magnitude_of (take n ?D4) =
          magnitude_of (live_digits xa) + magnitude_of (live_digits xb)" by simp
      then have "magnitude_of (live_digits ?ds') =
          magnitude_of (live_digits xa) + magnitude_of (live_digits xb)"
        using doff by (simp add: live_digits_wf)
      with wf' run show ?thesis by blast
    qed
  qed
qed


lemma pow_between: "(256 :: int) ^ p \<le> m \<Longrightarrow> m < 256 ^ q \<Longrightarrow> p < q"
proof -
  assume "(256 :: int) ^ p \<le> m" "m < 256 ^ q"
  then have "(256 :: int) ^ p < 256 ^ q" by linarith
  then show "p < q" by simp
qed

text \<open>
  At the default width the sum is exact. Let \<open>dest\<close>, \<open>a\<close> and \<open>b\<close> point to valid
  structures of 8-bit digits, any of them possibly the same one, small enough for the result
  to be allocated. Then \<open>magnitude_sum(dest, a, b)\<close> returns \<open>dest\<close> and leaves there a valid
  structure whose magnitude is the sum of the magnitudes of \<open>a\<close> and \<open>b\<close>; its length is the
  larger of the two lengths, plus one exactly when the sum does not fit in that many digits,
  that is when a carry leaves the most significant column. Nothing else in the store
  changes.
\<close>

theorem magnitude_sum_value:
  assumes d: "obj_at h dest = Some ds" and a: "obj_at h a = Some xa" and b: "obj_at h b = Some xb"
    and wd: "wf_bigint ds" and wa: "wf_bigint xa" and wb: "wf_bigint xb"
    and sz: "int (allocated ds) \<le> SIZE_MAX"
      "2 * (int (max (length_st xa) (length_st xb)) + 1) \<le> SIZE_MAX"
  shows "\<exists>ds'. magnitude_sum dest a b h = Inr (dest, store dest ds' h) \<and> wf_bigint ds' \<and>
           magnitude_of (live_digits ds') =
             magnitude_of (live_digits xa) + magnitude_of (live_digits xb) \<and>
           length_st ds' =
             max (length_st xa) (length_st xb) +
             (if 256 ^ max (length_st xa) (length_st xb)
                   \<le> magnitude_of (live_digits xa) + magnitude_of (live_digits xb)
              then 1 else 0)"
proof -
  obtain ds' where run: "magnitude_sum dest a b h = Inr (dest, store dest ds' h)"
    and wf': "wf_bigint ds'"
    and val: "magnitude_of (live_digits ds') =
        magnitude_of (live_digits xa) + magnitude_of (live_digits xb)"
    using magnitude_sum_run [OF d a b wd wa wb sz] by blast
  define A where "A = magnitude_of (live_digits xa)"
  define B where "B = magnitude_of (live_digits xb)"
  define M where "M = max (length_st xa) (length_st xb)"
  define n where "n = length_st ds'"
  have A0: "0 \<le> A" and B0: "0 \<le> B" by (simp_all add: A_def B_def magnitude_of_nonneg)
  have M: "length_st xa \<le> M" "length_st xb \<le> M" "M = length_st xa \<or> M = length_st xb"
    by (simp_all add: M_def max_def)
  have "A < 256 ^ length_st xa" using wf_magnitude_upper [OF wa] by (simp only: A_def)
  moreover have "(256 :: int) ^ length_st xa \<le> 256 ^ M" using M(1) by simp
  ultimately have Au: "A < 256 ^ M" by linarith
  have "B < 256 ^ length_st xb" using wf_magnitude_upper [OF wb] by (simp only: B_def)
  moreover have "(256 :: int) ^ length_st xb \<le> 256 ^ M" using M(2) by simp
  ultimately have Bu: "B < 256 ^ M" by linarith
  have "(0 :: int) < 256 ^ M" by simp
  moreover have "(256 :: int) ^ (M + 1) = 256 * 256 ^ M" by simp
  ultimately have Su: "A + B < 256 ^ (M + 1)" using Au Bu by linarith
  have nu: "A + B < 256 ^ n" using wf_magnitude_upper [OF wf'] val by (simp only: A_def B_def n_def)
  have nl: "0 < n \<Longrightarrow> 256 ^ (n - 1) \<le> A + B"
    using wf_magnitude_lower [OF wf'] val by (simp only: A_def B_def n_def)
  have len: "n = M + (if 256 ^ M \<le> A + B then 1 else 0)"
  proof (cases "M = 0")
    case True
    then have "A = 0" "B = 0"
      using M(1,2) by (simp_all add: A_def B_def bigint_value_zero_length)
    moreover have "n = 0"
    proof (rule ccontr)
      assume "n \<noteq> 0"
      then have "256 ^ (n - 1) \<le> A + B" using nl by simp
      moreover have "(0 :: int) < 256 ^ (n - 1)" by simp
      ultimately show False using \<open>A = 0\<close> \<open>B = 0\<close> by linarith
    qed
    ultimately show ?thesis using True by simp
  next
    case False
    then have Mp: "0 < M" by simp
    have "256 ^ (M - 1) \<le> A \<or> 256 ^ (M - 1) \<le> B"
      using M(3) Mp wf_magnitude_lower [OF wa] wf_magnitude_lower [OF wb]
      by (auto simp add: A_def B_def)
    then have Sl: "256 ^ (M - 1) \<le> A + B" using A0 B0 by (elim disjE) linarith+
    have "(0 :: int) < 256 ^ (M - 1)" by simp
    with Sl have Sp: "0 < A + B" by linarith
    have np: "0 < n"
    proof (rule ccontr)
      assume "\<not> 0 < n"
      then have "n = 0" by simp
      with nu show False using Sp by simp
    qed
    note nl' = nl [OF np]
    show ?thesis
    proof (cases "256 ^ M \<le> A + B")
      case True
      have "M < n" using pow_between [OF True nu] .
      moreover have "n - 1 < M + 1" using pow_between [OF nl' Su] .
      ultimately have "n = M + 1" by linarith
      with True show ?thesis by simp
    next
      case False
      then have "A + B < 256 ^ M" by simp
      then have "n - 1 < M" using pow_between [OF nl'] by blast
      moreover have "M - 1 < n" using pow_between [OF Sl nu] .
      ultimately have "n = M" using np Mp by linarith
      with False show ?thesis by simp
    qed
  qed
  show ?thesis
    using run wf' val len by (intro exI [of _ ds']) (simp only: A_def B_def M_def n_def simp_thms)
qed

text \<open>
  255 + 1 with the destination being the first operand: the carry gives a second digit.
\<close>

theorem magnitude_sum_value_in_place:
  "\<exists>ds'. magnitude_sum 1 1 2
       \<lparr>objs = [(1, \<lparr>digits = [255, 0], digits_off = 0, allocated = 2, length_st = 1,
                     negative = False\<rparr>),
                (2, \<lparr>digits = [1, 0], digits_off = 0, allocated = 2, length_st = 1,
                     negative = False\<rparr>)],
        brk = 3, garbage = (\<lambda>_. 0), small_number_cache = [], init_done = False\<rparr>
     = Inr (1, store 1 ds'
       \<lparr>objs = [(1, \<lparr>digits = [255, 0], digits_off = 0, allocated = 2, length_st = 1,
                     negative = False\<rparr>),
                (2, \<lparr>digits = [1, 0], digits_off = 0, allocated = 2, length_st = 1,
                     negative = False\<rparr>)],
        brk = 3, garbage = (\<lambda>_. 0), small_number_cache = [], init_done = False\<rparr>)
     \<and> wf_bigint ds' \<and> magnitude_of (live_digits ds') = 256 \<and> length_st ds' = 2"
proof -
  let ?xa = "\<lparr>digits = [255, 0], digits_off = 0, allocated = 2, length_st = 1,
                negative = False\<rparr>"
  let ?xb = "\<lparr>digits = [1, 0], digits_off = 0, allocated = 2, length_st = 1,
                negative = False\<rparr>"
  let ?h = "\<lparr>objs = [(1, ?xa), (2, ?xb)], brk = 3, garbage = (\<lambda>_. 0),
               small_number_cache = [], init_done = False\<rparr>"
  have a: "obj_at ?h 1 = Some ?xa" by (simp add: obj_at_def)
  have b: "obj_at ?h 2 = Some ?xb" by (simp add: obj_at_def)
  have wa: "wf_bigint ?xa" by (simp add: wf_bigint_def)
  have wb: "wf_bigint ?xb" by (simp add: wf_bigint_def)
  have sz: "int (allocated ?xa) \<le> SIZE_MAX"
    "2 * (int (max (length_st ?xa) (length_st ?xb)) + 1) \<le> SIZE_MAX"
    by (simp_all add: SIZE_MAX_def)
  have va: "magnitude_of (live_digits ?xa) = 255" by (simp add: live_digits_def)
  have vb: "magnitude_of (live_digits ?xb) = 1" by (simp add: live_digits_def)
  have ln: "max (length_st ?xa) (length_st ?xb) = 1" by simp
  obtain ds' where "magnitude_sum 1 1 2 ?h = Inr (1, store 1 ds' ?h)" "wf_bigint ds'"
    "magnitude_of (live_digits ds') = 256" "length_st ds' = 2"
    using magnitude_sum_value [OF a a b wa wa wb sz] by (simp only: va vb ln) auto
  then show ?thesis by blast
qed

section \<open>Where the code departs from its specification\<close>

text \<open>
  C1. The specification asks of \<open>bigint_div\<close> that \<open>n = q * d + r\<close> with \<open>|r| < |d|\<close>, and
  in particular that dividing \<open>-7\<close> by \<open>2\<close> gives quotient \<open>-3\<close> and remainder \<open>-1\<close>.
  The code takes its power-of-two path for \<open>d = 2\<close>, which shifts \<open>n\<close> and sets the
  remainder to zero: it returns quotient \<open>-3\<close> and remainder \<open>0\<close>, and
  \<open>-3 * 2 + 0\<close> is not \<open>-7\<close>.
\<close>

theorem bigint_div_minus_7_by_2:
  "outcome (div_ints fuel (- 7) 2 (empty_heap g)) = Inr (- 3, Some 0)"
  by code_simp

text \<open>
  C2. \<open>magnitude_sum\<close> is to leave the sum of the two magnitudes in \<open>dest\<close>, at every digit
  width the header offers. With 32-bit digits, let \<open>a\<close> have the digits \<open>ffffffff, 0, 1\<close>
  and \<open>b\<close> the digits \<open>1, ffffffff, 1\<close>, least significant first: their sum has the digits
  \<open>0, 0, 3\<close> and the code leaves \<open>0, 0, 2\<close>. In column 1 the digits and the carry add up to
  \<open>DIGIT_MAX + 1\<close>; \<open>sum\<close> is 0, \<open>sum - carry\<close> is computed in \<open>uint32_t\<close> and wraps to
  \<open>DIGIT_MAX\<close>, which is not less than the digit of \<open>a\<close>, and the carry is dropped. In the
  same way 8589934591 + 18446744065119617025, which is \<open>2 ^ 64\<close>, comes out as 0. With
  8-bit digits the difference is an \<open>int\<close> and the test is right, as shown above.
\<close>

theorem magnitude_sum_drops_carry_with_32_bit_digits:
  "outcome (sum_digits 4 [0xFFFFFFFF, 0, 1] [1, 0xFFFFFFFF, 1 :: 32 word] (empty_heap g))
     = Inr [0, 0, 2] \<and>
   outcome (sum_digits 4 [0xFFFFFFFF, 1] [1, 0xFFFFFFFE :: 32 word] (empty_heap g)) = Inr []"
  by code_simp

text \<open>
  C3. Every operation should leave its destination normalized; invariant N2 says that a big
  integer of length 0 is not negative. \<open>bigint_mov\<close> copies the digits and the length but
  not the sign flag: moving \<open>0\<close> into a destination that held \<open>-5\<close> leaves length 0 with
  the flag still set.
\<close>

theorem bigint_mov_zero_keeps_negative_flag:
  "outcome (mov_ints (- 5) 0 (empty_heap g)) = Inr (0, 0, True)"
  by code_simp

text \<open>
  C4. Printing and parsing back should give the value printed. In base 8 the formatter
  prints every 8-bit digit as three octal numerals and concatenates them, which is not the
  octal representation once there is more than one digit: \<open>257\<close> is printed as
  \<open>0o1001\<close>, which parses as \<open>513\<close>.
\<close>

theorem print_then_parse_257_base_8:
  "outcome (print_then_parse fuel 1000 257 8 (empty_heap g)) = Inr (''0o1001'', 513)"
  by code_simp

text \<open>
  C5. With \<open>n = 1280\<close> and \<open>d = 512\<close> none of the first three fast paths of
  \<open>bigint_div\<close> should apply (\<open>|d|\<close> is not 1, \<open>|n|\<close> is greater than \<open>|d|\<close>) and \<open>d\<close> is
  a power of two, so the quotient should be \<open>1280\<close> shifted right by 9, which is \<open>2\<close>.
  \<open>magnitude_cmp\<close> leaves its loop at the first pair of equal digits instead of the first
  pair of different ones; it reports the two magnitudes as equal and the code answers
  with quotient \<open>1\<close>.
\<close>

theorem bigint_div_1280_by_512:
  "outcome (div_ints fuel 1280 512 (empty_heap g)) = Inr (1, Some 0)"
  by code_simp

text \<open>
  C6. \<open>bigint_pow\<close> should return \<open>|B|\<close> to the power \<open>E\<close>. For \<open>B = 2^32 + 1\<close> and
  \<open>E = 3\<close> its last call of \<open>bigint_mul\<close> multiplies a 5-digit by a 9-digit number. The
  accumulator is resized to 14 digits in an array of 16, but both loops of \<open>bigint_mul\<close> run
  to the larger length and index \<open>dest->digits[i + j]\<close> up to \<open>16\<close>: the read is outside
  the array.
\<close>

theorem bigint_pow_reads_outside_accumulator:
  "outcome (pow_ints 100 4294967297 3 (empty_heap g)) = Inl Fault"
  by code_simp

text \<open>
  C7. After \<open>bigint_mov(dest, src)\<close> the destination should equal the source, sign
  included. The code does not copy the sign flag: moving \<open>3\<close> into a destination that held
  \<open>-5\<close> gives \<open>-3\<close>.
\<close>

theorem bigint_mov_keeps_sign_of_destination:
  "outcome (mov_ints (- 5) 3 (empty_heap g)) = Inr (- 3, 1, True)"
  by code_simp

text \<open>
  C8. Parsing \<open>3.141e2\<close> should give \<open>314\<close> and set the fraction pointer to the unused
  digit \<open>1\<close> (index 4). The code stores the pointer only when \<open>decimal != eom\<close>; with
  exactly one digit left the two are equal, and nothing is stored.
\<close>

theorem bigint_strtobif_one_digit_left:
  "outcome (parse_string fuel ''3.141e2'' (empty_heap g)) = Inr (314, None)"
  by code_simp

text \<open>
  C9. An operation called with its destination among its operands should give what it
  gives on disjoint copies. \<open>bigint_mul(a, a, b)\<close> with \<open>a = -256\<close> and \<open>b = 3\<close> takes the
  shift path on a duplicate, copies the duplicate (whose sign is that of \<open>b\<close>) over \<open>a\<close>
  and then computes the sign from \<open>a\<close> and \<open>b\<close>: the result is \<open>768\<close>, where a separate
  destination gets \<open>-768\<close>.
\<close>

theorem bigint_mul_in_place_loses_sign:
  "outcome (mul_ints_in_place (- 256) 3 (empty_heap g)) = Inr 768 \<and>
   outcome (mul_ints (- 256) 3 (empty_heap g)) = Inr (- 768)"
  by code_simp


end
